theory Spec2Isabelle
  imports Complex_Main "HOL-Library.Word"
begin

section \<open>The two-pass glDrawBuffers demo (main.cpp)\<close>

text \<open>
  The program is one C++ file: three helpers that talk to the OpenGL driver
  (\<open>getErrorDescr\<close>, \<open>getErrorMessage\<close>, \<open>error\<close>), the shader builder
  (\<open>compileShader\<close>, \<open>createProgram\<close>), four embedded GLSL texts and \<open>main\<close>.
  Everything the program does is a call of GLFW, GLEW or OpenGL, a print on a
  standard stream, or a decision on what such a call returned. The embedding
  therefore keeps

  \<^item> a \<^emph>\<open>world\<close>: the calls issued so far in program order, the text written to
    \<open>std::cout\<close> and \<open>std::cerr\<close>, the window's close flag and the driver's
    pending error flags;
  \<^item> a \<^emph>\<open>driver\<close>: what the libraries answer to each query of the program. The
    answers are parameters, so a theorem about every driver holds for the real one.
\<close>

subsection \<open>Basic types\<close>

type_synonym GLuint = "32 word"
type_synonym GLenum = "32 word"
type_synonym GLint = int
type_synonym c_int = "32 word" \<comment> \<open>\<open>int\<close>, read with \<open>sint\<close>\<close>
type_synonym c_uint = "32 word" \<comment> \<open>\<open>unsigned int\<close>, read with \<open>unat\<close>\<close>
type_synonym window_ptr = nat \<comment> \<open>\<open>GLFWwindow*\<close>, 0 is \<open>nullptr\<close>\<close>

definition newline :: char where
  "newline = CHR 0x0A"

definition tab :: char where
  "tab = CHR 0x09"

text \<open>The enumerators the program passes to the libraries, by name.\<close>

datatype (plugins only: code size) gl_const =
    GL_VERTEX_SHADER | GL_FRAGMENT_SHADER | GL_INFO_LOG_LENGTH | GL_COMPILE_STATUS
  | GL_LINK_STATUS | GL_ARRAY_BUFFER | GL_STATIC_DRAW | GL_FLOAT | GL_FALSE | GL_TEXTURE_2D
  | GL_RGBA | GL_UNSIGNED_BYTE | GL_TEXTURE_MAG_FILTER | GL_TEXTURE_MIN_FILTER | GL_NEAREST
  | GL_FRAMEBUFFER | GL_DRAW_FRAMEBUFFER | GL_COLOR_ATTACHMENT0 | GL_COLOR_ATTACHMENT1
  | GL_NONE | GL_DEPTH_TEST | GL_COLOR_BUFFER_BIT | GL_TRIANGLES | GL_TEXTURE0
  | GLFW_CONTEXT_VERSION_MAJOR | GLFW_CONTEXT_VERSION_MINOR | GLFW_OPENGL_PROFILE
  | GLFW_OPENGL_CORE_PROFILE | GLFW_KEY_ESCAPE | GLFW_TRUE

text \<open>
  One constructor per library function the program calls, with the arguments of
  the call. \<open>GlShaderSource\<close> carries the two parallel arrays as the driver
  finds them: a pointer is an offset into the source buffer, and a cell that was
  never written is \<open>None\<close>.
\<close>

datatype (plugins only: code size) call =
    GlfwInit
  | GlfwWindowHint gl_const int
  | GlfwWindowHintProfile gl_const gl_const
  | GlfwCreateWindow int int string
  | GlfwTerminate
  | GlfwMakeContextCurrent window_ptr
  | GlewInit
  | GlfwWindowShouldClose window_ptr
  | GlfwGetKey window_ptr gl_const
  | GlfwSetWindowShouldClose window_ptr gl_const
  | GlfwSwapBuffers window_ptr
  | GlfwPollEvents
  | GlfwDestroyWindow window_ptr
  | GlCreateShader gl_const
  | GlShaderSource GLuint int "nat option list" "c_int option list"
  | GlCompileShader GLuint
  | GlGetShaderiv GLuint gl_const
  | GlGetShaderInfoLog GLuint int
  | GlCreateProgram
  | GlAttachShader GLuint GLuint
  | GlLinkProgram GLuint
  | GlGetProgramiv GLuint gl_const
  | GlGetProgramInfoLog GLuint int
  | GlDeleteShader GLuint
  | GlGenVertexArrays int
  | GlBindVertexArray GLuint
  | GlGenBuffers int
  | GlBindBuffer gl_const GLuint
  | GlBufferData gl_const nat "real list" gl_const
  | GlEnableVertexAttribArray GLuint
  | GlVertexAttribPointer GLuint int gl_const gl_const int nat
  | GlGenTextures int
  | GlBindTexture gl_const GLuint
  | GlTexImage2D gl_const int gl_const int int int gl_const gl_const
  | GlTexParameteri gl_const gl_const gl_const
  | GlGenFramebuffers int
  | GlBindFramebuffer gl_const GLuint
  | GlFramebufferTexture2D gl_const gl_const gl_const GLuint int
  | GlCheckFramebufferStatus gl_const
  | GlDepthMask bool
  | GlDisable gl_const
  | GlClearColor real real real real
  | GlGetError
  | GlClear gl_const
  | GlUseProgram GLuint
  | GlDrawBuffers int "gl_const list"
  | GlDrawArrays gl_const int int
  | GlActiveTexture gl_const
  | GlDeleteProgram GLuint

record world =
  trace :: "call list"
  cout :: string
  cerr :: string
  shouldClose :: bool
  gl_errors :: "GLenum list"

definition initial_world :: world where
  "initial_world = \<lparr>trace = [], cout = [], cerr = [], shouldClose = False, gl_errors = []\<rparr>"

definition emit :: "call list \<Rightarrow> world \<Rightarrow> world" where
  "emit cs w = w\<lparr>trace := trace w @ cs\<rparr>"

definition print_out :: "string \<Rightarrow> world \<Rightarrow> world" where
  "print_out s w = w\<lparr>cout := cout w @ s\<rparr>"

definition print_err :: "string \<Rightarrow> world \<Rightarrow> world" where
  "print_err s w = w\<lparr>cerr := cerr w @ s\<rparr>"

definition endl :: string where
  "endl = [newline]"

subsection \<open>Error helpers (main.cpp lines 9 to 46)\<close>

text \<open>
  The error enumerators are compared with the driver's answer and printed as a
  number, so they are modelled by their values in the OpenGL headers, which the
  program includes and the repository does not contain.
\<close>

definition GL_NO_ERROR :: GLenum where "GL_NO_ERROR = 0"
definition GL_INVALID_ENUM :: GLenum where "GL_INVALID_ENUM = 0x0500"
definition GL_INVALID_VALUE :: GLenum where "GL_INVALID_VALUE = 0x0501"
definition GL_INVALID_OPERATION :: GLenum where "GL_INVALID_OPERATION = 0x0502"
definition GL_STACK_OVERFLOW :: GLenum where "GL_STACK_OVERFLOW = 0x0503"
definition GL_STACK_UNDERFLOW :: GLenum where "GL_STACK_UNDERFLOW = 0x0504"
definition GL_OUT_OF_MEMORY :: GLenum where "GL_OUT_OF_MEMORY = 0x0505"
definition GL_INVALID_FRAMEBUFFER_OPERATION :: GLenum where
  "GL_INVALID_FRAMEBUFFER_OPERATION = 0x0506"

definition getErrorDescr :: "GLenum \<Rightarrow> string" where
  "getErrorDescr errCode =
     (if errCode = GL_NO_ERROR then
        ''No error has been recorded. THIS message is the error itself.''
      else if errCode = GL_INVALID_ENUM then
        ''An unacceptable value is specified for an enumerated argument.''
      else if errCode = GL_INVALID_VALUE then
        ''A numeric argument is out of range.''
      else if errCode = GL_INVALID_OPERATION then
        ''The specified operation is not allowed in the current state.''
      else if errCode = GL_INVALID_FRAMEBUFFER_OPERATION then
        ''The framebuffer object is not complete.''
      else if errCode = GL_OUT_OF_MEMORY then
        ''There is not enough memory left to execute the command.''
      else if errCode = GL_STACK_UNDERFLOW then
        ''An attempt has been made to perform an operation that would cause an internal stack to underflow.''
      else if errCode = GL_STACK_OVERFLOW then
        ''An attempt has been made to perform an operation that would cause an internal stack to overflow.''
      else ''No description available.'')"

text \<open>Decimal output of an \<open>int\<close>, as \<open>operator<<\<close> prints it.\<close>

fun show_nat :: "nat \<Rightarrow> string" where
  "show_nat n =
     (if n < 10 then [char_of (48 + n)]
      else show_nat (n div 10) @ [char_of (48 + n mod 10)])"

declare show_nat.simps [simp del]

definition show_int :: "int \<Rightarrow> string" where
  "show_int i = (if i < 0 then CHR ''-'' # show_nat (nat (- i)) else show_nat (nat i))"

text \<open>
  \<open>glGetError\<close> in the model of the driver: the pending error flags are a list;
  one call returns one of them and resets it, and returns \<open>GL_NO_ERROR\<close> when
  none is pending.
\<close>

definition glGetError :: "world \<Rightarrow> GLenum \<times> world" where
  "glGetError w =
     (case gl_errors w of
        [] \<Rightarrow> (GL_NO_ERROR, emit [GlGetError] w)
      | e # es \<Rightarrow> (e, emit [GlGetError] (w\<lparr>gl_errors := es\<rparr>)))"

definition getErrorMessage :: "world \<Rightarrow> string \<times> world" where
  "getErrorMessage w =
     (let (error, w1) = glGetError w
      in if GL_NO_ERROR = error then ([], w1)
         else (''OpenGL error: '' @ show_int (sint error) @ endl @
               ''Error string: '' @ getErrorDescr error @ endl, w1))"

definition error :: "world \<Rightarrow> bool \<times> world" where
  "error w =
     (let (message, w1) = getErrorMessage w
      in if length message = 0 then (False, w1)
         else (True, print_err message w1))"

subsection \<open>compileShader (main.cpp lines 48 to 87)\<close>

text \<open>
  The first loop: \<open>linesCount\<close> counts the newline characters in an
  \<open>unsigned int\<close>, which wraps at \<open>2^32\<close>.
\<close>

definition count_lines :: "string \<Rightarrow> c_uint" where
  "count_lines source =
     fold (\<lambda>c linesCount. linesCount + (if c = newline then 1 else 0)) source 0"

text \<open>
  The second loop runs the \<open>unsigned int i\<close> while it is below
  \<open>source.length()\<close>, a \<open>size_t\<close>, over the \<open>int\<close> locals \<open>idx\<close> and
  \<open>lineLength\<close>, the pointer \<open>lineStart\<close> and the two arrays allocated with
  \<open>linesCount\<close> cells. The integers are 32-bit words: \<open>++i\<close> wraps at \<open>2^32\<close>,
  and the increments of the two \<open>int\<close>s wrap in two's complement where C++
  leaves the overflow undefined. \<open>lineStart\<close> is the offset of the pointer from
  \<open>source.data()\<close>. An array is indexed with the signed value of \<open>idx\<close>; a
  write outside the array is recorded in \<open>overrun\<close> and changes no cell.
\<close>

record split_state =
  idx :: c_int
  lineStart :: nat
  lineLength :: c_int
  sourceLines :: "nat option list"
  lengths :: "c_int option list"
  overrun :: bool

definition alloc_split :: "c_uint \<Rightarrow> split_state" where
  "alloc_split linesCount =
     \<lparr>idx = 0, lineStart = 0, lineLength = 1,
      sourceLines = replicate (unat linesCount) None,
      lengths = replicate (unat linesCount) None,
      overrun = False\<rparr>"

definition in_array :: "c_int \<Rightarrow> 'a list \<Rightarrow> bool" where
  "in_array k cells \<longleftrightarrow> 0 \<le> sint k \<and> nat (sint k) < length cells"

definition split_step :: "string \<Rightarrow> c_uint \<Rightarrow> split_state \<Rightarrow> split_state" where
  "split_step source i s =
     (if source ! unat i = newline then
        s\<lparr>sourceLines :=
            (if in_array (idx s) (sourceLines s)
             then (sourceLines s)[nat (sint (idx s)) := Some (lineStart s)]
             else sourceLines s),
          lengths :=
            (if in_array (idx s) (lengths s)
             then (lengths s)[nat (sint (idx s)) := Some (lineLength s)]
             else lengths s),
          overrun :=
            (overrun s \<or> \<not> in_array (idx s) (sourceLines s) \<or> \<not> in_array (idx s) (lengths s)),
          lineLength := 1,
          lineStart := unat i + 1,
          idx := idx s + 1\<rparr>
      else s\<lparr>lineLength := lineLength s + 1\<rparr>)"

text \<open>
  The loop need not end: with \<open>2^32\<close> bytes or more \<open>i\<close> wraps before it reaches
  the length. \<open>None\<close> is a loop that never ends.
\<close>

partial_function (option) split_loop :: "string \<Rightarrow> c_uint \<Rightarrow> split_state \<Rightarrow> split_state option" where
  "split_loop source i s =
     (if unat i < length source then split_loop source (i + 1) (split_step source i s)
      else Some s)"

declare split_loop.simps [code]

definition split_lines :: "string \<Rightarrow> split_state option" where
  "split_lines source = split_loop source 0 (alloc_split (count_lines source))"

text \<open>
  What \<open>glShaderSource(shader, count, string, length)\<close> reads: for each
  \<open>k < count\<close> the \<open>length[k]\<close> characters at \<open>string[k]\<close>, or the characters
  up to the terminating zero when \<open>length[k]\<close> is negative, one string after the
  other. \<open>count\<close> is the \<open>unsigned int linesCount\<close> converted to the signed
  \<open>GLsizei\<close>.
\<close>

definition line_text :: "string \<Rightarrow> nat option \<Rightarrow> c_int option \<Rightarrow> string" where
  "line_text source p l =
     (case (p, l) of
        (Some start, Some len) \<Rightarrow>
          if sint len < 0 then takeWhile (\<lambda>c. c \<noteq> CHR 0x00) (drop start source)
          else take (nat (sint len)) (drop start source)
      | _ \<Rightarrow> [])"

definition driver_text :: "string \<Rightarrow> nat \<Rightarrow> nat option list \<Rightarrow> c_int option list \<Rightarrow> string" where
  "driver_text source n ptrs lens =
     concat (map (\<lambda>k. line_text source (ptrs ! k) (lens ! k)) [0..<n])"

text \<open>
  The text and the lines that the arrays of a final split state describe to the
  driver.
\<close>

definition submitted_text :: "string \<Rightarrow> split_state \<Rightarrow> string" where
  "submitted_text source s =
     driver_text source (nat (sint (count_lines source))) (sourceLines s) (lengths s)"

definition submitted_line :: "string \<Rightarrow> split_state \<Rightarrow> nat \<Rightarrow> string" where
  "submitted_line source s k = line_text source (sourceLines s ! k) (lengths s ! k)"

text \<open>The number of newline characters, and a line that ends with its only one.\<close>

definition newlines :: "string \<Rightarrow> nat" where
  "newlines source = length (filter (\<lambda>c. c = newline) source)"

definition terminated :: "string \<Rightarrow> bool" where
  "terminated t \<longleftrightarrow> t \<noteq> [] \<and> last t = newline \<and> newline \<notin> set (butlast t)"

text \<open>
  The invariant of the second loop at its head, before iteration \<open>i\<close>, for a
  source in which no counter wraps: the lines recorded so far are the first
  \<open>idx\<close> cells, they tile the text before \<open>lineStart\<close>, and the line being read
  has no newline yet.
\<close>

definition split_inv :: "string \<Rightarrow> nat \<Rightarrow> split_state \<Rightarrow> bool" where
  "split_inv source i s \<longleftrightarrow>
     idx s = of_nat (newlines (take i source)) \<and>
     length (sourceLines s) = newlines source \<and>
     length (lengths s) = newlines source \<and>
     \<not> overrun s \<and>
     lineStart s \<le> i \<and>
     lineLength s = of_nat (i - lineStart s + 1) \<and>
     newline \<notin> set (drop (lineStart s) (take i source)) \<and>
     (lineStart s = 0 \<or> source ! (lineStart s - 1) = newline) \<and>
     driver_text source (newlines (take i source)) (sourceLines s) (lengths s) =
       take (lineStart s) source \<and>
     (\<forall>k<newlines (take i source). \<exists>p l. sourceLines s ! k = Some p \<and> lengths s ! k = Some l \<and>
         sint l = int (length (line_text source (Some p) (Some l))) \<and>
         terminated (line_text source (Some p) (Some l)))"

text \<open>The driver's answers to the queries of one \<open>compileShader\<close> call.\<close>

record shader_driver =
  info_log_length :: GLint
  info_log :: string
  compile_status :: GLint

text \<open>
  \<open>compileShader\<close> returns only if its second loop ends: \<open>None\<close> is a call that
  never returns.
\<close>

definition compileShader ::
  "shader_driver \<Rightarrow> GLuint \<Rightarrow> string \<Rightarrow> world \<Rightarrow> (bool \<times> world) option" where
  "compileShader d shader source w =
     (let linesCount = count_lines source
      in case split_lines source of
           None \<Rightarrow> None
         | Some s \<Rightarrow>
             let w1 = emit [GlShaderSource shader (sint linesCount) (sourceLines s) (lengths s),
                            GlCompileShader shader,
                            GlGetShaderiv shader GL_INFO_LOG_LENGTH] w;
                 logLength = info_log_length d;
                 w2 = (if logLength > 0 then
                         print_out (info_log d)
                           (print_out (''Log: '' @ endl)
                             (emit [GlGetShaderInfoLog shader logLength] w1))
                       else w1);
                 w3 = emit [GlGetShaderiv shader GL_COMPILE_STATUS] w2;
                 compileStatus = compile_status d
             in Some (compileStatus \<noteq> 0, w3))"

subsection \<open>createProgram (main.cpp lines 89 to 142)\<close>

record program_driver =
  vs_handle :: GLuint
  fs_handle :: GLuint
  vs_driver :: shader_driver
  fs_driver :: shader_driver
  program_handle :: GLuint
  link_log_length :: GLint
  link_log :: string
  link_status :: GLint

definition createProgram ::
  "program_driver \<Rightarrow> string \<Rightarrow> string \<Rightarrow> world \<Rightarrow> (GLuint \<times> world) option" where
  "createProgram d vertSource fragSource w =
     (let vs = vs_handle d;
          w1 = emit [GlCreateShader GL_VERTEX_SHADER] w
      in if vs = 0 then Some (2, print_err (''Error: vertex shader is 0.'' @ endl) w1)
      else
        let fs = fs_handle d;
            w2 = emit [GlCreateShader GL_FRAGMENT_SHADER] w1
        in if fs = 0 then Some (2, print_err (''Error: fragment shader is 0.'' @ endl) w2)
        else
          case compileShader (vs_driver d) vs vertSource w2 of
            None \<Rightarrow> None
          | Some (vs_ok, w3) \<Rightarrow>
              if \<not> vs_ok then
                Some (5, print_err (''Error: could not compile vertex shader.'' @ endl) w3)
              else
               (case compileShader (fs_driver d) fs fragSource w3 of
                  None \<Rightarrow> None
                | Some (fs_ok, w4) \<Rightarrow>
                    if \<not> fs_ok then
                      Some (5, print_err (''Error: could not compile fragment shader.'' @ endl) w4)
                    else
                      let program = program_handle d;
                          w5 = emit [GlCreateProgram] w4
                      in if program = 0 then
                           Some (2, print_err (''Error: program is 0.'' @ endl) w5)
                      else
                        let w6 = emit [GlAttachShader program vs,
                                       GlAttachShader program fs,
                                       GlLinkProgram program,
                                       GlGetProgramiv program GL_INFO_LOG_LENGTH] w5;
                            logLength = link_log_length d;
                            w7 = (if logLength > 0 then
                                    print_out (link_log d)
                                      (print_out (''Log: '' @ endl)
                                        (emit [GlGetProgramInfoLog program logLength] w6))
                                  else w6);
                            w8 = emit [GlGetProgramiv program GL_LINK_STATUS] w7;
                            linkStatus = link_status d
                        in if linkStatus = 0 then
                             Some (2, print_err (''Error: could not link.'' @ endl) w8)
                           else Some (program, emit [GlDeleteShader vs, GlDeleteShader fs] w8)))"

subsection \<open>The embedded shader sources (main.cpp lines 144 to 196)\<close>

definition quadVertSource :: string where
  "quadVertSource =
     ''\<newline>'' @
     ''#version 330\<newline>'' @
     ''\<newline>'' @
     ''const float scale = 0.5;\<newline>'' @
     ''\<newline>'' @
     ''layout(location = 0) in vec2 v;\<newline>'' @
     ''\<newline>'' @
     ''void main()\<newline>'' @
     ''{\<newline>'' @
     tab # ''gl_Position = vec4(v * scale, 0.0, 1.0);\<newline>'' @
     ''}\<newline>''"

definition quad1FragSource :: string where
  "quad1FragSource =
     ''\<newline>'' @
     ''#version 330\<newline>'' @
     ''\<newline>'' @
     ''layout(location = 1) out vec4 outFragColor1;\<newline>'' @
     ''\<newline>'' @
     ''void main()\<newline>'' @
     ''{\<newline>'' @
     tab # ''outFragColor1 = vec4(vec3(0.0, 0.0, 1.0), 1.0);\<newline>'' @
     ''}\<newline>''"

definition texVertSource :: string where
  "texVertSource =
     ''\<newline>'' @
     ''#version 330\<newline>'' @
     ''\<newline>'' @
     ''layout(location = 0) in vec2 v;\<newline>'' @
     ''\<newline>'' @
     ''smooth out vec2 texCoord;\<newline>'' @
     ''\<newline>'' @
     ''void main()\<newline>'' @
     ''{\<newline>'' @
     tab # ''texCoord = (v + vec2(1.0)) * 0.5;\<newline>'' @
     tab # ''gl_Position = vec4(v, 0.0, 1.0);\<newline>'' @
     ''}\<newline>''"

definition texFragSource :: string where
  "texFragSource =
     ''\<newline>'' @
     ''#version 330\<newline>'' @
     ''#extension GL_ARB_explicit_uniform_location : enable\<newline>'' @
     ''\<newline>'' @
     ''layout(location = 0) uniform sampler2D tex;\<newline>'' @
     ''\<newline>'' @
     ''smooth in vec2 texCoord;\<newline>'' @
     ''\<newline>'' @
     ''layout(location = 0) out vec4 outFragColor0;\<newline>'' @
     ''\<newline>'' @
     ''void main()\<newline>'' @
     ''{\<newline>'' @
     tab # ''outFragColor0 = vec4(texture(tex, texCoord).rgb, 1.0);\<newline>'' @
     ''}\<newline>''"

subsection \<open>main (main.cpp lines 198 to 306)\<close>

text \<open>
  What the environment answers while \<open>main\<close> runs: whether the build defines
  \<open>NDEBUG\<close> (then \<open>assert\<close> evaluates nothing), the results of the
  initialisation calls, the driver's answers to the two \<open>createProgram\<close> calls,
  the object names the \<open>glGen*\<close> calls write, whether the framebuffer is
  complete, the error flags the driver has recorded by the end of the setup, and
  for each iteration of the frame loop what the windowing system reports.
\<close>

record frame_input =
  escape_pressed :: bool \<comment> \<open>\<open>glfwGetKey(window, GLFW_KEY_ESCAPE) == GLFW_PRESS\<close>\<close>
  close_requested :: bool \<comment> \<open>a close request arrives during \<open>glfwPollEvents\<close>\<close>

record environment =
  ndebug :: bool
  glfwInit_ok :: bool
  created_window :: window_ptr
  glewInit_ok :: bool
  quad1_driver :: program_driver
  tex_driver :: program_driver
  gen_vao :: GLuint
  gen_buffer :: GLuint
  gen_tex :: "GLuint \<times> GLuint"
  gen_fb :: GLuint
  framebuffer_complete :: bool
  setup_errors :: "GLenum list"
  frames :: "frame_input list"

text \<open>The locals of \<open>main\<close> that the frame loop and the shutdown use.\<close>

record locals =
  window :: window_ptr
  quad1Program :: GLuint
  texProgram :: GLuint
  tex :: "GLuint \<times> GLuint"
  fb :: GLuint

definition fullscreenQuad :: "real list" where
  "fullscreenQuad = [-1, -1,  1, -1,  1, 1,  -1, -1,  1, 1,  -1, 1]"

definition att1 :: "gl_const list" where
  "att1 = [GL_NONE, GL_COLOR_ATTACHMENT1]"

text \<open>
  The window's close flag in the model of GLFW: false for a new window, set by
  \<open>glfwSetWindowShouldClose(window, GLFW_TRUE)\<close> and by a close request that
  \<open>glfwPollEvents\<close> processes, read by \<open>glfwWindowShouldClose\<close>. The program
  installs no callback, so nothing resets it.
\<close>

definition glfwWindowShouldClose :: "window_ptr \<Rightarrow> world \<Rightarrow> bool \<times> world" where
  "glfwWindowShouldClose win w = (shouldClose w, emit [GlfwWindowShouldClose win] w)"

definition glfwSetWindowShouldClose_TRUE :: "window_ptr \<Rightarrow> world \<Rightarrow> world" where
  "glfwSetWindowShouldClose_TRUE win w =
     (emit [GlfwSetWindowShouldClose win GLFW_TRUE] w)\<lparr>shouldClose := True\<rparr>"

definition glfwPollEvents :: "frame_input \<Rightarrow> world \<Rightarrow> world" where
  "glfwPollEvents f w =
     (emit [GlfwPollEvents] w)\<lparr>shouldClose := (shouldClose w \<or> close_requested f)\<rparr>"

definition driver_records :: "GLenum list \<Rightarrow> world \<Rightarrow> world" where
  "driver_records es w = w\<lparr>gl_errors := gl_errors w @ es\<rparr>"

text \<open>The body of the \<open>while\<close> loop: line 279, then lines 281 to 296.\<close>

definition poll_exit_key :: "locals \<Rightarrow> frame_input \<Rightarrow> world \<Rightarrow> world" where
  "poll_exit_key v f w =
     (let w1 = emit [GlfwGetKey (window v) GLFW_KEY_ESCAPE] w
      in if escape_pressed f then glfwSetWindowShouldClose_TRUE (window v) w1 else w1)"

definition loop_body :: "locals \<Rightarrow> frame_input \<Rightarrow> world \<Rightarrow> world" where
  "loop_body v f w =
     (let w2 = poll_exit_key v f w;
          w3 = emit [GlBindFramebuffer GL_DRAW_FRAMEBUFFER (fb v),
                     GlClear GL_COLOR_BUFFER_BIT,
                     GlUseProgram (quad1Program v),
                     GlDrawBuffers 2 att1,
                     GlDrawArrays GL_TRIANGLES 0 6] w2;
          w4 = emit [GlBindFramebuffer GL_DRAW_FRAMEBUFFER 0,
                     GlUseProgram (texProgram v),
                     GlActiveTexture GL_TEXTURE0,
                     GlBindTexture GL_TEXTURE_2D (snd (tex v)),
                     GlDrawArrays GL_TRIANGLES 0 6,
                     GlBindTexture GL_TEXTURE_2D 0] w3;
          w5 = emit [GlfwSwapBuffers (window v)] w4
      in glfwPollEvents f w5)"

text \<open>
  The \<open>while\<close> loop over the frames the environment describes. It may run for
  ever: the result says whether the loop was left, and \<open>False\<close> means that the
  close flag was still clear at the loop head when the described frames ended.
\<close>

fun frame_loop :: "locals \<Rightarrow> frame_input list \<Rightarrow> world \<Rightarrow> bool \<times> world" where
  "frame_loop v [] w = glfwWindowShouldClose (window v) w"
| "frame_loop v (f # rest) w =
     (let (close, w1) = glfwWindowShouldClose (window v) w
      in if close then (True, w1) else frame_loop v rest (loop_body v f w1))"

datatype exit_status = Exit int | Aborted | Running

text \<open>
  Lines 230 to 277: the vertex buffer, the framebuffer and the two assertions,
  with the window and the two program values of the lines before. \<open>Inl\<close> is an
  early end of the process, \<open>Inr\<close> the locals and the world at the loop head. A
  failed \<open>assert\<close> aborts the process; with \<open>NDEBUG\<close> its argument is not
  evaluated.
\<close>

definition prepare ::
  "environment \<Rightarrow> window_ptr \<Rightarrow> GLuint \<Rightarrow> GLuint \<Rightarrow> world \<Rightarrow>
   (exit_status \<times> world) + (locals \<times> world)" where
  "prepare e created programA programB w4 =
     (let window = created; quad1Program = programA; texProgram = programB;
          width = 800; height = 600;
          vao = gen_vao e;
          buffer = gen_buffer e;
          w5 = emit [GlGenVertexArrays 1,
                     GlBindVertexArray vao,
                     GlGenBuffers 1,
                     GlBindBuffer GL_ARRAY_BUFFER buffer,
                     GlBufferData GL_ARRAY_BUFFER (length fullscreenQuad * 4)
                       fullscreenQuad GL_STATIC_DRAW,
                     GlEnableVertexAttribArray 0,
                     GlVertexAttribPointer 0 2 GL_FLOAT GL_FALSE 0 0] w4;
          tex = gen_tex e;
          fb = gen_fb e;
          w6 = emit [GlGenTextures 2,
                     GlBindTexture GL_TEXTURE_2D (fst tex),
                     GlTexImage2D GL_TEXTURE_2D 0 GL_RGBA width height 0 GL_RGBA
                       GL_UNSIGNED_BYTE,
                     GlTexParameteri GL_TEXTURE_2D GL_TEXTURE_MAG_FILTER GL_NEAREST,
                     GlTexParameteri GL_TEXTURE_2D GL_TEXTURE_MIN_FILTER GL_NEAREST,
                     GlBindTexture GL_TEXTURE_2D (snd tex),
                     GlTexImage2D GL_TEXTURE_2D 0 GL_RGBA width height 0 GL_RGBA
                       GL_UNSIGNED_BYTE,
                     GlTexParameteri GL_TEXTURE_2D GL_TEXTURE_MAG_FILTER GL_NEAREST,
                     GlTexParameteri GL_TEXTURE_2D GL_TEXTURE_MIN_FILTER GL_NEAREST,
                     GlBindTexture GL_TEXTURE_2D 0,
                     GlGenFramebuffers 1,
                     GlBindFramebuffer GL_FRAMEBUFFER fb,
                     GlFramebufferTexture2D GL_FRAMEBUFFER GL_COLOR_ATTACHMENT0
                       GL_TEXTURE_2D (fst tex) 0,
                     GlFramebufferTexture2D GL_FRAMEBUFFER GL_COLOR_ATTACHMENT1
                       GL_TEXTURE_2D (snd tex) 0] w5;
          w7 = (if ndebug e then w6 else emit [GlCheckFramebufferStatus GL_FRAMEBUFFER] w6)
      in if \<not> ndebug e \<and> \<not> framebuffer_complete e then Inl (Aborted, w7)
      else
        let w8 = emit [GlBindFramebuffer GL_FRAMEBUFFER 0,
                       GlDepthMask False,
                       GlDisable GL_DEPTH_TEST,
                       GlClearColor 0 0 0 1] w7;
            w9 = driver_records (setup_errors e) w8;
            (failed, w10) = (if ndebug e then (False, w9) else error w9)
        in if failed then Inl (Aborted, w10)
        else
          Inr (\<lparr>window = window, quad1Program = quad1Program,
                texProgram = texProgram, tex = tex, fb = fb\<rparr>, w10))"

text \<open>
  Lines 200 to 277: everything before the loop. The two \<open>createProgram\<close> calls
  are made with the embedded sources, and nothing tests what they return; \<open>None\<close>
  is a startup in which one of them does not return.
\<close>

definition startup :: "environment \<Rightarrow> ((exit_status \<times> world) + (locals \<times> world)) option" where
  "startup e =
     (let w0 = emit [GlfwInit] initial_world
      in if \<not> glfwInit_ok e then
           Some (Inl (Exit 3, print_err (''Error: glfw init failed.'' @ endl) w0))
      else
        let width = 800; height = 600;
            w1 = emit [GlfwWindowHint GLFW_CONTEXT_VERSION_MAJOR 3,
                       GlfwWindowHint GLFW_CONTEXT_VERSION_MINOR 3,
                       GlfwWindowHintProfile GLFW_OPENGL_PROFILE GLFW_OPENGL_CORE_PROFILE,
                       GlfwCreateWindow width height ''Shader test''] w0;
            window = created_window e
        in if window = 0 then
             Some (Inl (Exit 1,
               emit [GlfwTerminate] (print_err (''Error: window is null.'' @ endl) w1)))
        else
          let w2 = emit [GlfwMakeContextCurrent window, GlewInit] w1
          in if \<not> glewInit_ok e then
               Some (Inl (Exit 2,
                 emit [GlfwTerminate] (print_err (''Error: glew not OK.'' @ endl) w2)))
          else
            case createProgram (quad1_driver e) quadVertSource quad1FragSource w2 of
              None \<Rightarrow> None
            | Some builtA \<Rightarrow>
                let (quad1Program, w3) = builtA
                in (case createProgram (tex_driver e) texVertSource texFragSource w3 of
                      None \<Rightarrow> None
                    | Some builtB \<Rightarrow>
                        let (texProgram, w4) = builtB
                        in Some (prepare e window quad1Program texProgram w4)))"

text \<open>Lines 299 to 305.\<close>

definition shutdown :: "locals \<Rightarrow> world \<Rightarrow> exit_status \<times> world" where
  "shutdown v w =
     (let w1 = print_out (''Finishing...'' @ endl) w;
          w2 = emit [GlDeleteProgram (quad1Program v),
                     GlfwMakeContextCurrent 0,
                     GlfwDestroyWindow (window v),
                     GlfwTerminate] w1
      in (Exit 0, w2))"

text \<open>
  \<open>main\<close>: the startup, the frame loop and the shutdown. \<open>None\<close> is a run that
  hangs in the startup; a run that is still in the loop when the described frames
  end has the status \<open>Running\<close>.
\<close>

definition main :: "environment \<Rightarrow> (exit_status \<times> world) option" where
  "main e =
     (case startup e of
        None \<Rightarrow> None
      | Some (Inl ended) \<Rightarrow> Some ended
      | Some (Inr (v, w)) \<Rightarrow>
          let (left, w1) = frame_loop v (frames e) w
          in Some (if left then shutdown v w1 else (Running, w1)))"

section \<open>Notions the properties are stated with\<close>

subsection \<open>Outcomes of a program build\<close>

text \<open>
  Why a \<open>createProgram\<close> call fails, read off the driver's answers in the order
  in which the function meets them: a shader or program handle is zero, a shader
  does not compile, or the program does not link.
\<close>

datatype build_failure = Zero_handle | Compile_failure | Link_failure

definition build_outcome :: "program_driver \<Rightarrow> build_failure option" where
  "build_outcome d =
     (if vs_handle d = 0 \<or> fs_handle d = 0 then Some Zero_handle
      else if compile_status (vs_driver d) = 0 \<or> compile_status (fs_driver d) = 0
        then Some Compile_failure
      else if program_handle d = 0 then Some Zero_handle
      else if link_status d = 0 then Some Link_failure
      else None)"

text \<open>What \<open>createProgram\<close> returns when it returns, and what it then has written to
  standard error.\<close>

definition program_result :: "program_driver \<Rightarrow> GLuint" where
  "program_result d =
     (case build_outcome d of
        None \<Rightarrow> program_handle d
      | Some Zero_handle \<Rightarrow> 2
      | Some Compile_failure \<Rightarrow> 5
      | Some Link_failure \<Rightarrow> 2)"

definition failure_message :: "program_driver \<Rightarrow> string" where
  "failure_message d =
     (if vs_handle d = 0 then ''Error: vertex shader is 0.'' @ endl
      else if fs_handle d = 0 then ''Error: fragment shader is 0.'' @ endl
      else if compile_status (vs_driver d) = 0 then
        ''Error: could not compile vertex shader.'' @ endl
      else if compile_status (fs_driver d) = 0 then
        ''Error: could not compile fragment shader.'' @ endl
      else if program_handle d = 0 then ''Error: program is 0.'' @ endl
      else if link_status d = 0 then ''Error: could not link.'' @ endl
      else [])"

text \<open>
  The calls \<open>compileShader\<close> issues, and the calls \<open>createProgram\<close> issues,
  those of \<open>compileShader\<close> included.
\<close>

definition compile_call :: "call \<Rightarrow> bool" where
  "compile_call c =
     (case c of
        GlShaderSource _ _ _ _ \<Rightarrow> True
      | GlCompileShader _ \<Rightarrow> True
      | GlGetShaderiv _ _ \<Rightarrow> True
      | GlGetShaderInfoLog _ _ \<Rightarrow> True
      | _ \<Rightarrow> False)"

definition build_call :: "call \<Rightarrow> bool" where
  "build_call c =
     (case c of
        GlCreateShader _ \<Rightarrow> True
      | GlShaderSource _ _ _ _ \<Rightarrow> True
      | GlCompileShader _ \<Rightarrow> True
      | GlGetShaderiv _ _ \<Rightarrow> True
      | GlGetShaderInfoLog _ _ \<Rightarrow> True
      | GlCreateProgram \<Rightarrow> True
      | GlAttachShader _ _ \<Rightarrow> True
      | GlLinkProgram _ \<Rightarrow> True
      | GlGetProgramiv _ _ \<Rightarrow> True
      | GlGetProgramInfoLog _ _ \<Rightarrow> True
      | GlDeleteShader _ \<Rightarrow> True
      | _ \<Rightarrow> False)"

subsection \<open>Runs of main\<close>

text \<open>
  The environments in which \<open>main\<close> reaches the frame loop: the three
  initialisations succeed and, unless \<open>NDEBUG\<close> removes them, both assertions
  hold (the framebuffer is complete and \<open>error()\<close> finds no error).
\<close>

definition startup_passes :: "environment \<Rightarrow> bool" where
  "startup_passes e \<longleftrightarrow>
     glfwInit_ok e \<and> created_window e \<noteq> 0 \<and> glewInit_ok e \<and>
     (ndebug e \<or>
      (framebuffer_complete e \<and>
       (setup_errors e = [] \<or> hd (setup_errors e) = GL_NO_ERROR)))"

definition closing :: "frame_input \<Rightarrow> bool" where
  "closing f \<longleftrightarrow> escape_pressed f \<or> close_requested f"

definition idle_frame :: frame_input where
  "idle_frame = \<lparr>escape_pressed = False, close_requested = False\<rparr>"

text \<open>
  The frames whose loop body runs, given the close flag at the loop head: all
  frames up to and including the first one that sets the flag.
\<close>

fun executed :: "bool \<Rightarrow> frame_input list \<Rightarrow> frame_input list" where
  "executed close [] = []"
| "executed close (f # rest) = (if close then [] else f # executed (closing f) rest)"

text \<open>The calls of one iteration, from the loop condition to the event poll.\<close>

definition pass_A_calls :: "locals \<Rightarrow> call list" where
  "pass_A_calls v =
     [GlBindFramebuffer GL_DRAW_FRAMEBUFFER (fb v),
      GlClear GL_COLOR_BUFFER_BIT,
      GlUseProgram (quad1Program v),
      GlDrawBuffers 2 [GL_NONE, GL_COLOR_ATTACHMENT1],
      GlDrawArrays GL_TRIANGLES 0 6]"

definition pass_B_calls :: "locals \<Rightarrow> call list" where
  "pass_B_calls v =
     [GlBindFramebuffer GL_DRAW_FRAMEBUFFER 0,
      GlUseProgram (texProgram v),
      GlActiveTexture GL_TEXTURE0,
      GlBindTexture GL_TEXTURE_2D (snd (tex v)),
      GlDrawArrays GL_TRIANGLES 0 6,
      GlBindTexture GL_TEXTURE_2D 0]"

definition frame_calls :: "locals \<Rightarrow> frame_input \<Rightarrow> call list" where
  "frame_calls v f =
     [GlfwWindowShouldClose (window v), GlfwGetKey (window v) GLFW_KEY_ESCAPE] @
     (if escape_pressed f then [GlfwSetWindowShouldClose (window v) GLFW_TRUE] else []) @
     pass_A_calls v @ pass_B_calls v @
     [GlfwSwapBuffers (window v), GlfwPollEvents]"

definition deletes_program :: "call \<Rightarrow> bool" where
  "deletes_program c = (case c of GlDeleteProgram _ \<Rightarrow> True | _ \<Rightarrow> False)"

text \<open>
  The calls of the startup before the first and after the second
  \<open>createProgram\<close>, in an environment in which the startup passes.
\<close>

definition startup_head_calls :: "environment \<Rightarrow> call list" where
  "startup_head_calls e =
     [GlfwInit,
      GlfwWindowHint GLFW_CONTEXT_VERSION_MAJOR 3,
      GlfwWindowHint GLFW_CONTEXT_VERSION_MINOR 3,
      GlfwWindowHintProfile GLFW_OPENGL_PROFILE GLFW_OPENGL_CORE_PROFILE,
      GlfwCreateWindow 800 600 ''Shader test'',
      GlfwMakeContextCurrent (created_window e),
      GlewInit]"

definition startup_tail_calls :: "environment \<Rightarrow> call list" where
  "startup_tail_calls e =
     [GlGenVertexArrays 1,
      GlBindVertexArray (gen_vao e),
      GlGenBuffers 1,
      GlBindBuffer GL_ARRAY_BUFFER (gen_buffer e),
      GlBufferData GL_ARRAY_BUFFER 48 fullscreenQuad GL_STATIC_DRAW,
      GlEnableVertexAttribArray 0,
      GlVertexAttribPointer 0 2 GL_FLOAT GL_FALSE 0 0,
      GlGenTextures 2,
      GlBindTexture GL_TEXTURE_2D (fst (gen_tex e)),
      GlTexImage2D GL_TEXTURE_2D 0 GL_RGBA 800 600 0 GL_RGBA GL_UNSIGNED_BYTE,
      GlTexParameteri GL_TEXTURE_2D GL_TEXTURE_MAG_FILTER GL_NEAREST,
      GlTexParameteri GL_TEXTURE_2D GL_TEXTURE_MIN_FILTER GL_NEAREST,
      GlBindTexture GL_TEXTURE_2D (snd (gen_tex e)),
      GlTexImage2D GL_TEXTURE_2D 0 GL_RGBA 800 600 0 GL_RGBA GL_UNSIGNED_BYTE,
      GlTexParameteri GL_TEXTURE_2D GL_TEXTURE_MAG_FILTER GL_NEAREST,
      GlTexParameteri GL_TEXTURE_2D GL_TEXTURE_MIN_FILTER GL_NEAREST,
      GlBindTexture GL_TEXTURE_2D 0,
      GlGenFramebuffers 1,
      GlBindFramebuffer GL_FRAMEBUFFER (gen_fb e),
      GlFramebufferTexture2D GL_FRAMEBUFFER GL_COLOR_ATTACHMENT0 GL_TEXTURE_2D (fst (gen_tex e)) 0,
      GlFramebufferTexture2D GL_FRAMEBUFFER GL_COLOR_ATTACHMENT1 GL_TEXTURE_2D (snd (gen_tex e)) 0] @
     (if ndebug e then [] else [GlCheckFramebufferStatus GL_FRAMEBUFFER]) @
     [GlBindFramebuffer GL_FRAMEBUFFER 0,
      GlDepthMask False,
      GlDisable GL_DEPTH_TEST,
      GlClearColor 0 0 0 1] @
     (if ndebug e then [] else [GlGetError])"

definition shutdown_calls :: "locals \<Rightarrow> call list" where
  "shutdown_calls v =
     [GlDeleteProgram (quad1Program v),
      GlfwMakeContextCurrent 0,
      GlfwDestroyWindow (window v),
      GlfwTerminate]"

text \<open>
  The locals at the loop head: the program values are what the two
  \<open>createProgram\<close> calls return (\<open>createProgram_spec\<close> below).
\<close>

definition loop_locals :: "environment \<Rightarrow> locals" where
  "loop_locals e =
     \<lparr>window = created_window e,
      quad1Program = program_result (quad1_driver e),
      texProgram = program_result (tex_driver e),
      tex = gen_tex e,
      fb = gen_fb e\<rparr>"

text \<open>
  The world in which a run ends. Every run of \<open>main\<close> returns (\<open>main_returns\<close>
  below), so the second case does not arise.
\<close>

definition final_world :: "environment \<Rightarrow> world" where
  "final_world e = (case main e of Some (status, w) \<Rightarrow> w | None \<Rightarrow> initial_world)"

text \<open>
  A driver with which everything succeeds, a shader that does not compile, and an
  environment in which the startup passes.
\<close>

definition good_shader :: shader_driver where
  "good_shader = \<lparr>info_log_length = 0, info_log = [], compile_status = 1\<rparr>"

definition broken_shader :: shader_driver where
  "broken_shader =
     \<lparr>info_log_length = 18, info_log = ''0:1: syntax error'', compile_status = 0\<rparr>"

definition good_driver :: "GLuint \<Rightarrow> program_driver" where
  "good_driver program =
     \<lparr>vs_handle = 1, fs_handle = 2, vs_driver = good_shader, fs_driver = good_shader,
      program_handle = program, link_log_length = 0, link_log = [], link_status = 1\<rparr>"

definition demo_environment :: "frame_input list \<Rightarrow> environment" where
  "demo_environment fs =
     \<lparr>ndebug = False, glfwInit_ok = True, created_window = 1, glewInit_ok = True,
      quad1_driver = good_driver 3, tex_driver = good_driver 6,
      gen_vao = 1, gen_buffer = 1, gen_tex = (1, 2), gen_fb = 1,
      framebuffer_complete = True, setup_errors = [], frames = fs\<rparr>"

subsection \<open>What a trace does to the driver's state\<close>

text \<open>
  Two pieces of OpenGL state decide what a clear writes and what a draw can
  sample: the clear colour, set by \<open>glClearColor\<close>, and the texture bound to the
  active texture unit, set by \<open>glBindTexture\<close> (the program only ever activates
  unit 0 and only binds the target \<open>GL_TEXTURE_2D\<close>). Initially the clear colour
  is transparent black and no texture is bound. Reading a trace in this state
  gives, in order, the colour of every \<open>glClear\<close> and the texture bound at every
  \<open>glDrawArrays\<close>.
\<close>

type_synonym rgba = "real \<times> real \<times> real \<times> real"

definition opaque_blue :: rgba where
  "opaque_blue = (0, 0, 1, 1)"

definition opaque_black :: rgba where
  "opaque_black = (0, 0, 0, 1)"

record gl_state =
  clear_colour :: rgba
  texture_2d :: GLuint

definition gl_initial :: gl_state where
  "gl_initial = \<lparr>clear_colour = (0, 0, 0, 0), texture_2d = 0\<rparr>"

definition gl_step :: "call \<Rightarrow> gl_state \<Rightarrow> gl_state" where
  "gl_step c s =
     (case c of
        GlClearColor r g b a \<Rightarrow> s\<lparr>clear_colour := (r, g, b, a)\<rparr>
      | GlBindTexture target t \<Rightarrow> s\<lparr>texture_2d := t\<rparr>
      | _ \<Rightarrow> s)"

datatype observation = Cleared_with rgba | Drew_with GLuint

definition observe_call :: "gl_state \<Rightarrow> call \<Rightarrow> observation list" where
  "observe_call s c =
     (case c of
        GlClear _ \<Rightarrow> [Cleared_with (clear_colour s)]
      | GlDrawArrays _ _ _ \<Rightarrow> [Drew_with (texture_2d s)]
      | _ \<Rightarrow> [])"

fun observe :: "gl_state \<Rightarrow> call list \<Rightarrow> observation list" where
  "observe s [] = []"
| "observe s (c # cs) = observe_call s c @ observe (gl_step c s) cs"

section \<open>Properties\<close>

subsection \<open>Machine integers\<close>

lemma sint_of_nat_small: "n < 2 ^ 31 \<Longrightarrow> sint (of_nat n :: 32 word) = int n"
  by (simp add: signed_of_nat signed_take_bit_int_eq_self)

lemma unat_of_nat_small: "n < 2 ^ 32 \<Longrightarrow> unat (of_nat n :: 32 word) = n"
  by (simp add: unat_of_nat)

subsection \<open>The line count of compileShader\<close>

lemma fold_count_newlines:
  "fold (\<lambda>c linesCount. linesCount + (if c = newline then 1 else 0)) xs (a :: 32 word) =
   a + of_nat (newlines xs)"
  by (induction xs arbitrary: a) (auto simp: newlines_def)

lemma count_lines_newlines: "count_lines source = of_nat (newlines source)"
  by (simp add: count_lines_def fold_count_newlines)

lemma newlines_le: "newlines source \<le> length source"
  by (simp add: newlines_def)

lemma newlines_take_Suc:
  "i < length source \<Longrightarrow>
   newlines (take (Suc i) source) =
   newlines (take i source) + (if source ! i = newline then 1 else 0)"
  by (simp add: take_Suc_conv_app_nth newlines_def)

lemma newlines_take_le: "newlines (take i source) \<le> newlines source"
proof -
  have "newlines source = newlines (take i source) + newlines (drop i source)"
    unfolding newlines_def by (metis append_take_drop_id filter_append length_append)
  then show ?thesis by simp
qed


subsection \<open>Whether the split loop of compileShader ends\<close>

text \<open>The loop ends for a source shorter than \<open>2^32\<close> bytes and for no other.\<close>

lemma split_loop_ends:
  "length source < 2 ^ 32 \<Longrightarrow> i \<le> length source \<Longrightarrow>
   \<exists>s'. split_loop source (of_nat i) s = Some s'"
proof (induction "length source - i" arbitrary: i s)
  case 0
  then have "unat (of_nat i :: 32 word) = length source"
    by (simp add: unat_of_nat_small)
  then show ?case by (subst split_loop.simps) simp
next
  case (Suc n)
  then have i: "i < length source" by simp
  with Suc.prems have u: "unat (of_nat i :: 32 word) = i"
    by (simp add: unat_of_nat_small)
  have "split_loop source (of_nat i) s =
        split_loop source (of_nat (Suc i)) (split_step source (of_nat i) s)"
    using i u by (subst split_loop.simps) (simp add: add.commute)
  moreover have "\<exists>s'. split_loop source (of_nat (Suc i)) (split_step source (of_nat i) s) = Some s'"
    using Suc.hyps(2) Suc.prems i by (intro Suc.hyps(1)) simp_all
  ultimately show ?case by simp
qed

lemma split_loop_Some_short:
  assumes "split_loop source i s = Some y"
  shows "length source < 2 ^ 32"
proof -
  have step: "length src < 2 ^ 32"
    if ih: "\<And>a b c d. f a b c = Some d \<Longrightarrow> length a < 2 ^ 32"
      and eq: "(if unat j < length src then f src (j + 1) (split_step src j t) else Some t) = Some z"
    for f :: "string \<Rightarrow> c_uint \<Rightarrow> split_state \<Rightarrow> split_state option"
      and src j t z
  proof (rule ccontr)
    assume big: "\<not> length src < 2 ^ 32"
    have "unat j < 2 ^ 32" using unsigned_less [of j] by simp
    with big have "unat j < length src" by simp
    with eq have "f src (j + 1) (split_step src j t) = Some z" by simp
    then have "length src < 2 ^ 32" by (rule ih)
    with big show False by simp
  qed
  show ?thesis
    by (rule split_loop.raw_induct [where P = "\<lambda>source i s y. length source < 2 ^ 32", rotated, OF assms])
      (rule step)
qed

lemma split_loop_never_ends:
  "2 ^ 32 \<le> length source \<Longrightarrow> split_loop source i s = None"
  using split_loop_Some_short [of source i s] by (cases "split_loop source i s") auto

lemma split_lines_ends: "length source < 2 ^ 32 \<Longrightarrow> \<exists>s. split_lines source = Some s"
  unfolding split_lines_def using split_loop_ends [of source 0] by simp

lemma split_lines_never_ends: "2 ^ 32 \<le> length source \<Longrightarrow> split_lines source = None"
  unfolding split_lines_def by (rule split_loop_never_ends)

subsection \<open>The invariant of the split loop\<close>

lemma split_inv_alloc:
  assumes "length source < 2 ^ 32"
  shows "split_inv source 0 (alloc_split (count_lines source))"
proof -
  have "newlines source < 2 ^ 32"
    using newlines_le [of source] assms by simp
  then have "unat (count_lines source) = newlines source"
    by (simp add: count_lines_newlines unat_of_nat_small)
  then show ?thesis
    by (simp add: split_inv_def alloc_split_def driver_text_def newlines_def)
qed

lemma driver_text_update:
  "driver_text source n (ptrs[n := p]) (lens[n := l]) = driver_text source n ptrs lens"
  unfolding driver_text_def by (rule arg_cong [where f = concat], rule map_cong) auto

lemma driver_text_Suc:
  "driver_text source (Suc n) ptrs lens =
   driver_text source n ptrs lens @ line_text source (ptrs ! n) (lens ! n)"
  by (simp add: driver_text_def)

lemma take_drop_join:
  "a \<le> i \<Longrightarrow> take a xs @ take (Suc i - a) (drop a xs) = take (Suc i) xs"
  by (metis le_Suc_eq le_add_diff_inverse take_add)

lemma split_inv_step:
  assumes inv: "split_inv source i s" and i: "i < length source"
    and short: "length source < 2 ^ 31 - 1"
  shows "split_inv source (Suc i) (split_step source (of_nat i) s)"
proof -
  let ?n = "newlines (take i source)"
  from inv have st: "lineStart s \<le> i" and n: "idx s = of_nat ?n"
    and ll: "lineLength s = of_nat (i - lineStart s + 1)"
    and len1: "length (sourceLines s) = newlines source"
    and len2: "length (lengths s) = newlines source"
    and quiet: "\<not> overrun s"
    by (simp_all add: split_inv_def)
  have ui: "unat (of_nat i :: 32 word) = i"
    using i short by (simp add: unat_of_nat_small)
  have nle: "?n \<le> newlines source" by (rule newlines_take_le)
  have nsmall: "?n < 2 ^ 31"
    using nle newlines_le [of source] short by simp
  have sidx: "sint (idx s) = int ?n"
    using nsmall by (simp add: n sint_of_nat_small)
  have sll: "sint (lineLength s) = int (i - lineStart s + 1)"
    unfolding ll using i short by (intro sint_of_nat_small) simp
  show ?thesis
  proof (cases "source ! i = newline")
    case False
    have d: "drop (lineStart s) (take (Suc i) source) =
             drop (lineStart s) (take i source) @ [source ! i]"
      using st i by (simp add: take_Suc_conv_app_nth)
    have l: "lineLength s + 1 = of_nat (Suc i - lineStart s + 1)"
      using st by (simp add: ll Suc_diff_le)
    have s': "split_step source (of_nat i) s = s\<lparr>lineLength := lineLength s + 1\<rparr>"
      using False by (simp add: split_step_def ui)
    have same: "newlines (take (Suc i) source) = ?n"
      using False i by (simp add: newlines_take_Suc)
    show ?thesis
      using inv False st unfolding s' split_inv_def same
      by (simp add: d l)
  next
    case True
    let ?t = "take (Suc i - lineStart s) (drop (lineStart s) source)"
    let ?s' = "split_step source (of_nat i) s"
    have more: "newlines (take (Suc i) source) = Suc ?n"
      using True i by (simp add: newlines_take_Suc)
    have "newlines (take (Suc i) source) \<le> newlines source"
      by (rule newlines_take_le)
    with more have inrange: "?n < newlines source" by simp
    have arr: "in_array (idx s) (sourceLines s)" "in_array (idx s) (lengths s)"
      using inrange by (simp_all add: in_array_def sidx len1 len2)
    have natidx: "nat (sint (of_nat ?n :: 32 word)) = ?n"
      using sidx by (simp add: n)
    have natll: "nat (sint (lineLength s)) = Suc i - lineStart s"
      using st by (simp add: sll Suc_diff_le)
    have t_eq: "?t = drop (lineStart s) (take i source) @ [newline]"
      using st i True by (simp add: take_Suc_conv_app_nth drop_take Suc_diff_le)
    have t_term: "terminated ?t"
      using inv by (simp add: t_eq terminated_def split_inv_def)
    have t_len: "sint (lineLength s) = int (length ?t)"
      using st i by (simp add: sll Suc_diff_le)
    have s': "?s' = s\<lparr>sourceLines := (sourceLines s)[?n := Some (lineStart s)],
          lengths := (lengths s)[?n := Some (lineLength s)],
          overrun := False,
          lineLength := 1, lineStart := i + 1, idx := of_nat (Suc ?n)\<rparr>"
      using True arr quiet by (simp add: split_step_def ui natidx n add.commute)
    have nonneg: "\<not> sint (lineLength s) < 0" by (simp add: sll)
    have new_line: "line_text source (Some (lineStart s)) (Some (lineLength s)) = ?t"
      by (simp add: line_text_def natll nonneg)
    have fed: "driver_text source (Suc ?n) (sourceLines ?s') (lengths ?s') =
               take (lineStart ?s') source"
    proof -
      have "driver_text source (Suc ?n) (sourceLines ?s') (lengths ?s') =
            driver_text source ?n (sourceLines s) (lengths s) @ ?t"
        using inrange by (simp add: s' driver_text_Suc driver_text_update len1 len2 new_line)
      also have "driver_text source ?n (sourceLines s) (lengths s) = take (lineStart s) source"
        using inv unfolding split_inv_def by blast
      also have "take (lineStart s) source @ ?t = take (Suc i) source"
        using st by (rule take_drop_join)
      finally show ?thesis by (simp add: s')
    qed
    have old: "\<And>k. k < ?n \<Longrightarrow>
        sourceLines ?s' ! k = sourceLines s ! k \<and> lengths ?s' ! k = lengths s ! k"
      by (simp add: s')
    have new: "sourceLines ?s' ! ?n = Some (lineStart s) \<and> lengths ?s' ! ?n = Some (lineLength s)"
      using inrange by (simp add: s' len1 len2)
    have cells: "\<forall>k<Suc ?n. \<exists>p l. sourceLines ?s' ! k = Some p \<and> lengths ?s' ! k = Some l \<and>
           sint l = int (length (line_text source (Some p) (Some l))) \<and>
           terminated (line_text source (Some p) (Some l))"
    proof (intro allI impI)
      fix k assume "k < Suc ?n"
      then have "k < ?n \<or> k = ?n" by auto
      then show "\<exists>p l. sourceLines ?s' ! k = Some p \<and> lengths ?s' ! k = Some l \<and>
           sint l = int (length (line_text source (Some p) (Some l))) \<and>
           terminated (line_text source (Some p) (Some l))"
      proof
        assume "k < ?n"
        with inv old show ?thesis by (simp add: split_inv_def)
      next
        assume "k = ?n"
        with new new_line t_term t_len show ?thesis by simp
      qed
    qed
    have rest: "idx ?s' = of_nat (Suc ?n) \<and>
       length (sourceLines ?s') = newlines source \<and>
       length (lengths ?s') = newlines source \<and>
       \<not> overrun ?s' \<and> lineStart ?s' \<le> Suc i \<and>
       lineLength ?s' = of_nat (Suc i - lineStart ?s' + 1) \<and>
       newline \<notin> set (drop (lineStart ?s') (take (Suc i) source)) \<and>
       (lineStart ?s' = 0 \<or> source ! (lineStart ?s' - 1) = newline)"
      using True len1 len2 by (simp add: s')
    show ?thesis
      unfolding split_inv_def more using rest fed cells by blast
  qed
qed

lemma split_loop_inv:
  assumes short: "length source < 2 ^ 31 - 1"
  shows "split_inv source i s \<Longrightarrow> i \<le> length source \<Longrightarrow>
   \<exists>s'. split_loop source (of_nat i) s = Some s' \<and> split_inv source (length source) s'"
proof (induction "length source - i" arbitrary: i s)
  case 0
  then have "unat (of_nat i :: 32 word) = length source" and "i = length source"
    using short by (simp_all add: unat_of_nat_small)
  with 0 show ?case by (subst split_loop.simps) simp
next
  case (Suc n)
  then have i: "i < length source" by simp
  with short have u: "unat (of_nat i :: 32 word) = i"
    by (simp add: unat_of_nat_small)
  have "split_loop source (of_nat i) s =
        split_loop source (of_nat (Suc i)) (split_step source (of_nat i) s)"
    using i u by (subst split_loop.simps) (simp add: add.commute)
  moreover have "\<exists>s'. split_loop source (of_nat (Suc i)) (split_step source (of_nat i) s) = Some s' \<and>
      split_inv source (length source) s'"
    using Suc.hyps(2) i split_inv_step [OF Suc.prems(1) i short]
    by (intro Suc.hyps(1)) simp_all
  ultimately show ?case by simp
qed

lemma split_lines_inv:
  assumes "length source < 2 ^ 31 - 1"
  shows "\<exists>s. split_lines source = Some s \<and> split_inv source (length source) s"
proof -
  have "split_inv source 0 (alloc_split (count_lines source))"
    using assms by (intro split_inv_alloc) simp
  from split_loop_inv [OF assms this] show ?thesis
    by (simp add: split_lines_def)
qed

subsection \<open>What the final state of the split describes to the driver\<close>

lemma count_lines_fits:
  assumes "length source < 2 ^ 31 - 1"
  shows "unat (count_lines source) = newlines source"
    and "sint (count_lines source) = int (newlines source)"
proof -
  have "newlines source < 2 ^ 31"
    using newlines_le [of source] assms by simp
  then show "unat (count_lines source) = newlines source"
    and "sint (count_lines source) = int (newlines source)"
    by (simp_all add: count_lines_newlines unat_of_nat_small sint_of_nat_small)
qed

lemma split_final:
  assumes "split_inv source (length source) s"
  shows "idx s = of_nat (newlines source)"
    and "length (sourceLines s) = newlines source"
    and "length (lengths s) = newlines source"
    and "\<not> overrun s"
    and "lineStart s \<le> length source"
    and "newline \<notin> set (drop (lineStart s) source)"
    and "lineStart s = 0 \<or> source ! (lineStart s - 1) = newline"
    and "driver_text source (newlines source) (sourceLines s) (lengths s) =
         take (lineStart s) source"
  using assms unfolding split_inv_def by simp_all

lemma submitted_text_lines:
  "length source < 2 ^ 31 - 1 \<Longrightarrow>
   submitted_text source s = concat (map (submitted_line source s) [0..<newlines source])"
  unfolding submitted_text_def driver_text_def submitted_line_def
  by (simp add: count_lines_fits)

lemma submitted_text_take:
  assumes "length source < 2 ^ 31 - 1" and "split_inv source (length source) s"
  shows "submitted_text source s = take (lineStart s) source"
  using split_final(8) [OF assms(2)] by (simp add: submitted_text_def count_lines_fits [OF assms(1)])

lemma submitted_text_length:
  assumes "length source < 2 ^ 31 - 1" and "split_inv source (length source) s"
  shows "length (submitted_text source s) = lineStart s"
  using split_final(5) [OF assms(2)] by (simp add: submitted_text_take [OF assms])

lemma submitted_text_prefix:
  assumes "length source < 2 ^ 31 - 1" and "split_inv source (length source) s"
  shows "take (length (submitted_text source s)) source = submitted_text source s"
  by (simp add: submitted_text_length [OF assms]) (simp add: submitted_text_take [OF assms])

lemma rest_has_no_newline:
  assumes "length source < 2 ^ 31 - 1" and "split_inv source (length source) s"
  shows "newline \<notin> set (drop (length (submitted_text source s)) source)"
  using split_final(6) [OF assms(2)] by (simp add: submitted_text_length [OF assms])

lemma submitted_text_ends:
  assumes "length source < 2 ^ 31 - 1" and "split_inv source (length source) s"
  shows "submitted_text source s = [] \<or> last (submitted_text source s) = newline"
proof (cases "lineStart s = 0")
  case True
  then show ?thesis by (simp add: submitted_text_take [OF assms])
next
  case False
  let ?m = "lineStart s"
  have m: "?m \<le> length source" by (rule split_final(5) [OF assms(2)])
  have nl: "source ! (?m - 1) = newline"
    using False split_final(7) [OF assms(2)] by simp
  have ne: "take ?m source \<noteq> []"
    using False m by auto
  have "last (take ?m source) = take ?m source ! (?m - 1)"
    using m by (simp add: last_conv_nth [OF ne] min_absorb2)
  also have "\<dots> = source ! (?m - 1)"
    using False by simp
  finally show ?thesis using nl by (simp add: submitted_text_take [OF assms])
qed


lemma submitted_text_whole:
  assumes "length source < 2 ^ 31 - 1" and "split_inv source (length source) s"
  shows "(submitted_text source s = source) = (source = [] \<or> last source = newline)"
proof
  assume eq: "submitted_text source s = source"
  with submitted_text_ends [OF assms] show "source = [] \<or> last source = newline" by simp
next
  assume *: "source = [] \<or> last source = newline"
  show "submitted_text source s = source"
  proof (rule ccontr)
    assume neq: "submitted_text source s \<noteq> source"
    let ?r = "drop (length (submitted_text source s)) source"
    have "source = submitted_text source s @ ?r"
      by (metis append_take_drop_id submitted_text_prefix [OF assms])
    with neq have r: "?r \<noteq> []" by auto
    then have "source \<noteq> []" by auto
    with * have "last source = newline" by simp
    moreover have "last source = last ?r" using r by simp
    ultimately have "newline \<in> set ?r" using r last_in_set by metis
    with rest_has_no_newline [OF assms] show False by blast
  qed
qed

lemma cells_written:
  assumes "split_inv source (length source) s"
  shows "list_all (\<lambda>c. c \<noteq> None) (sourceLines s) \<and> list_all (\<lambda>c. c \<noteq> None) (lengths s)"
proof -
  from assms
  have "length (sourceLines s) = newlines source"
    and "length (lengths s) = newlines source"
    and "\<forall>k<newlines source. sourceLines s ! k \<noteq> None \<and> lengths s ! k \<noteq> None"
    unfolding split_inv_def by auto
  then show ?thesis by (simp add: list_all_length)
qed

lemma embedded_sources_short:
  "length quadVertSource = 132" "length quad1FragSource = 126"
  "length texVertSource = 160" "length texFragSource = 257"
  by (simp_all add: quadVertSource_def quad1FragSource_def texVertSource_def texFragSource_def)

lemma embedded_sources_end:
  "last quadVertSource = newline" "last quad1FragSource = newline"
  "last texVertSource = newline" "last texFragSource = newline"
  by (simp_all add: quadVertSource_def quad1FragSource_def texVertSource_def texFragSource_def
      newline_def)

lemma terminated_source_submitted:
  assumes "length source < 2 ^ 31 - 1" and "last source = newline"
  shows "\<exists>s. split_lines source = Some s \<and> submitted_text source s = source"
proof -
  from split_lines_inv [OF assms(1)] obtain s
    where s: "split_lines source = Some s" "split_inv source (length source) s" by blast
  with submitted_text_whole [OF assms(1) s(2)] assms(2) show ?thesis by simp
qed

lemma embedded_sources_terminated:
  "list_all (\<lambda>embedded. \<exists>s. split_lines embedded = Some s \<and> submitted_text embedded s = embedded)
     [quadVertSource, quad1FragSource, texVertSource, texFragSource]"
  by (simp add: terminated_source_submitted embedded_sources_short embedded_sources_end)

subsection \<open>compileShader\<close>

lemma compile_call_build_call: "compile_call c \<Longrightarrow> build_call c"
  by (cases c) (simp_all add: compile_call_def build_call_def)

lemma compile_calls_build_calls: "list_all compile_call cs \<Longrightarrow> list_all build_call cs"
  by (induction cs) (simp_all add: compile_call_build_call)

lemma compileShader_spec:
  assumes "compileShader d shader source w = Some (ok, w')"
  shows "ok = (compile_status d \<noteq> 0)"
    and "shouldClose w' = shouldClose w"
    and "gl_errors w' = gl_errors w"
    and "cerr w' = cerr w"
    and "\<exists>s cs. split_lines source = Some s \<and>
           trace w' = trace w @
             GlShaderSource shader (sint (count_lines source)) (sourceLines s) (lengths s) # cs \<and>
           list_all compile_call cs"
proof -
  from assms obtain s where s: "split_lines source = Some s"
    by (auto simp: compileShader_def Let_def split: option.splits)
  let ?w1 = "emit [GlShaderSource shader (sint (count_lines source)) (sourceLines s) (lengths s),
                   GlCompileShader shader,
                   GlGetShaderiv shader GL_INFO_LOG_LENGTH] w"
  from assms s have ok: "ok = (compile_status d \<noteq> 0)"
    and w': "w' = emit [GlGetShaderiv shader GL_COMPILE_STATUS]
        (if info_log_length d > 0 then
           print_out (info_log d)
             (print_out (''Log: '' @ endl)
               (emit [GlGetShaderInfoLog shader (info_log_length d)] ?w1))
         else ?w1)"
    by (auto simp: compileShader_def Let_def)
  show "ok = (compile_status d \<noteq> 0)" by (rule ok)
  show "shouldClose w' = shouldClose w" "gl_errors w' = gl_errors w" "cerr w' = cerr w"
    by (simp_all add: w' emit_def print_out_def)
  have "trace w' = trace w @
      GlShaderSource shader (sint (count_lines source)) (sourceLines s) (lengths s) #
      ([GlCompileShader shader, GlGetShaderiv shader GL_INFO_LOG_LENGTH] @
       (if info_log_length d > 0 then [GlGetShaderInfoLog shader (info_log_length d)] else []) @
       [GlGetShaderiv shader GL_COMPILE_STATUS])"
    by (simp add: w' emit_def print_out_def)
  moreover have "list_all compile_call
      ([GlCompileShader shader, GlGetShaderiv shader GL_INFO_LOG_LENGTH] @
       (if info_log_length d > 0 then [GlGetShaderInfoLog shader (info_log_length d)] else []) @
       [GlGetShaderiv shader GL_COMPILE_STATUS])"
    by (simp add: compile_call_def)
  ultimately show "\<exists>s cs. split_lines source = Some s \<and>
           trace w' = trace w @
             GlShaderSource shader (sint (count_lines source)) (sourceLines s) (lengths s) # cs \<and>
           list_all compile_call cs"
    using s by blast
qed

lemma compileShader_calls:
  assumes "compileShader d shader source w = Some (ok, w')"
  shows "\<exists>cs. trace w' = trace w @ cs \<and> list_all compile_call cs"
proof -
  from compileShader_spec(5) [OF assms] obtain s :: split_state and cs
    where "trace w' = trace w @
             GlShaderSource shader (sint (count_lines source)) (sourceLines s) (lengths s) # cs"
      and "list_all compile_call cs" by blast
  then show ?thesis
    by (intro exI [of _ "GlShaderSource shader (sint (count_lines source)) (sourceLines s)
          (lengths s) # cs"]) (simp add: compile_call_def)
qed

lemma compileShader_returns:
  "length source < 2 ^ 32 \<Longrightarrow> \<exists>ok w'. compileShader d shader source w = Some (ok, w')"
  using split_lines_ends [of source] by (auto simp: compileShader_def Let_def)

lemma compileShader_hangs:
  "2 ^ 32 \<le> length source \<Longrightarrow> compileShader d shader source w = None"
  by (simp add: compileShader_def Let_def split_lines_never_ends)

subsection \<open>createProgram\<close>

text \<open>
  A \<open>createProgram\<close> call that returns: its result, what it leaves untouched,
  what it writes to standard error, and its calls, which stop where the build
  fails.
\<close>

lemma createProgram_shape:
  assumes "createProgram d vertSource fragSource w = Some (r, w')"
  shows "r = program_result d \<and> shouldClose w' = shouldClose w \<and> gl_errors w' = gl_errors w \<and>
     cerr w' = cerr w @ failure_message d \<and>
     (\<exists>cs1 cs2. list_all compile_call cs1 \<and> list_all compile_call cs2 \<and>
        trace w' = trace w @
          (if vs_handle d = 0 then [GlCreateShader GL_VERTEX_SHADER]
           else if fs_handle d = 0 then
             [GlCreateShader GL_VERTEX_SHADER, GlCreateShader GL_FRAGMENT_SHADER]
           else
             GlCreateShader GL_VERTEX_SHADER # GlCreateShader GL_FRAGMENT_SHADER # cs1 @
             (if compile_status (vs_driver d) = 0 then []
              else cs2 @
                (if compile_status (fs_driver d) = 0 then []
                 else GlCreateProgram #
                   (if program_handle d = 0 then []
                    else [GlAttachShader (program_handle d) (vs_handle d),
                          GlAttachShader (program_handle d) (fs_handle d),
                          GlLinkProgram (program_handle d),
                          GlGetProgramiv (program_handle d) GL_INFO_LOG_LENGTH] @
                         (if link_log_length d > 0
                          then [GlGetProgramInfoLog (program_handle d) (link_log_length d)]
                          else []) @
                         [GlGetProgramiv (program_handle d) GL_LINK_STATUS] @
                         (if link_status d = 0 then []
                          else [GlDeleteShader (vs_handle d), GlDeleteShader (fs_handle d)]))))))"
proof (cases "vs_handle d = 0")
  case True
  with assms have "r = 2"
    and "w' = print_err (''Error: vertex shader is 0.'' @ endl)
                (emit [GlCreateShader GL_VERTEX_SHADER] w)"
    by (simp_all add: createProgram_def Let_def)
  with True show ?thesis
    by (intro conjI exI [of _ "[]"])
      (simp_all add: program_result_def build_outcome_def failure_message_def emit_def
        print_err_def)
next
  case vs: False
  show ?thesis
  proof (cases "fs_handle d = 0")
    case True
    with vs assms have "r = 2"
      and "w' = print_err (''Error: fragment shader is 0.'' @ endl)
                  (emit [GlCreateShader GL_FRAGMENT_SHADER]
                    (emit [GlCreateShader GL_VERTEX_SHADER] w))"
      by (simp_all add: createProgram_def Let_def)
    with vs True show ?thesis
      by (intro conjI exI [of _ "[]"])
        (simp_all add: program_result_def build_outcome_def failure_message_def emit_def
          print_err_def)
  next
    case fs: False
    let ?w2 = "emit [GlCreateShader GL_FRAGMENT_SHADER] (emit [GlCreateShader GL_VERTEX_SHADER] w)"
    from assms vs fs obtain ok1 w3
      where c1: "compileShader (vs_driver d) (vs_handle d) vertSource ?w2 = Some (ok1, w3)"
      by (auto simp: createProgram_def Let_def split: option.splits)
    from compileShader_calls [OF c1] obtain cs1
      where t3: "trace w3 = trace w @
          GlCreateShader GL_VERTEX_SHADER # GlCreateShader GL_FRAGMENT_SHADER # cs1"
        and b1: "list_all compile_call cs1"
      by (auto simp: emit_def)
    have f3: "ok1 = (compile_status (vs_driver d) \<noteq> 0)" "shouldClose w3 = shouldClose w"
      "gl_errors w3 = gl_errors w" "cerr w3 = cerr w"
      using compileShader_spec(1-4) [OF c1] by (simp_all add: emit_def)
    show ?thesis
    proof (cases "compile_status (vs_driver d) = 0")
      case True
      with assms vs fs c1 f3 have "r = 5"
        and "w' = print_err (''Error: could not compile vertex shader.'' @ endl) w3"
        by (simp_all add: createProgram_def Let_def)
      with vs fs True t3 b1 f3 show ?thesis
        by (intro conjI exI [of _ cs1] exI [of _ "[]"])
          (simp_all add: program_result_def build_outcome_def failure_message_def print_err_def)
    next
      case v_ok: False
      from assms vs fs c1 f3 v_ok obtain ok2 w4
        where c2: "compileShader (fs_driver d) (fs_handle d) fragSource w3 = Some (ok2, w4)"
        by (auto simp: createProgram_def Let_def split: option.splits)
      from compileShader_calls [OF c2] obtain cs2
        where t4: "trace w4 = trace w3 @ cs2" and b2: "list_all compile_call cs2"
        by auto
      have f4: "ok2 = (compile_status (fs_driver d) \<noteq> 0)" "shouldClose w4 = shouldClose w"
        "gl_errors w4 = gl_errors w" "cerr w4 = cerr w"
        using compileShader_spec(1-4) [OF c2] f3 by simp_all
      show ?thesis
      proof (cases "compile_status (fs_driver d) = 0")
        case True
        with assms vs fs c1 f3 v_ok c2 f4 have "r = 5"
          and "w' = print_err (''Error: could not compile fragment shader.'' @ endl) w4"
          by (simp_all add: createProgram_def Let_def)
        with vs fs v_ok True t3 t4 b1 b2 f4 show ?thesis
          by (intro conjI exI [of _ cs1] exI [of _ cs2])
            (simp_all add: program_result_def build_outcome_def failure_message_def
              print_err_def)
      next
        case f_ok: False
        let ?w5 = "emit [GlCreateProgram] w4"
        let ?w6 = "emit [GlAttachShader (program_handle d) (vs_handle d),
                         GlAttachShader (program_handle d) (fs_handle d),
                         GlLinkProgram (program_handle d),
                         GlGetProgramiv (program_handle d) GL_INFO_LOG_LENGTH] ?w5"
        let ?w8 = "emit [GlGetProgramiv (program_handle d) GL_LINK_STATUS]
                     (if link_log_length d > 0 then
                        print_out (link_log d)
                          (print_out (''Log: '' @ endl)
                            (emit [GlGetProgramInfoLog (program_handle d) (link_log_length d)]
                              ?w6))
                      else ?w6)"
        from assms vs fs c1 f3 v_ok c2 f4 f_ok
        have res: "(r, w') =
            (if program_handle d = 0 then (2, print_err (''Error: program is 0.'' @ endl) ?w5)
             else if link_status d = 0 then (2, print_err (''Error: could not link.'' @ endl) ?w8)
             else (program_handle d,
                   emit [GlDeleteShader (vs_handle d), GlDeleteShader (fs_handle d)] ?w8))"
          by (auto simp: createProgram_def Let_def split: if_splits)
        show ?thesis
        proof (cases "program_handle d = 0")
          case True
          with res have "r = 2" "w' = print_err (''Error: program is 0.'' @ endl) ?w5"
            by simp_all
          with vs fs v_ok f_ok True t3 t4 b1 b2 f4 show ?thesis
            by (intro conjI exI [of _ cs1] exI [of _ cs2])
              (simp_all add: program_result_def build_outcome_def failure_message_def
                print_err_def emit_def)
        next
          case p_ok: False
          show ?thesis
          proof (cases "link_status d = 0")
            case True
            with res p_ok have "r = 2" "w' = print_err (''Error: could not link.'' @ endl) ?w8"
              by simp_all
            with vs fs v_ok f_ok p_ok True t3 t4 b1 b2 f4 show ?thesis
              by (intro conjI exI [of _ cs1] exI [of _ cs2])
                (simp_all add: program_result_def build_outcome_def failure_message_def
                  print_err_def print_out_def emit_def)
          next
            case False
            with res p_ok have "r = program_handle d"
              "w' = emit [GlDeleteShader (vs_handle d), GlDeleteShader (fs_handle d)] ?w8"
              by simp_all
            with vs fs v_ok f_ok p_ok False t3 t4 b1 b2 f4 show ?thesis
              by (intro conjI exI [of _ cs1] exI [of _ cs2])
                (simp_all add: program_result_def build_outcome_def failure_message_def
                  print_err_def print_out_def emit_def)
          qed
        qed
      qed
    qed
  qed
qed

lemma createProgram_spec:
  assumes "createProgram d vertSource fragSource w = Some (r, w')"
  shows "r = program_result d"
    and "shouldClose w' = shouldClose w"
    and "gl_errors w' = gl_errors w"
    and "cerr w' = cerr w @ failure_message d"
    and "\<exists>cs. trace w' = trace w @ cs \<and> list_all build_call cs"
proof -
  from createProgram_shape [OF assms]
  show "r = program_result d" "shouldClose w' = shouldClose w" "gl_errors w' = gl_errors w"
    "cerr w' = cerr w @ failure_message d"
    by simp_all
  from createProgram_shape [OF assms] obtain cs1 cs2 cs
    where b: "list_all compile_call cs1" "list_all compile_call cs2"
      and cs: "cs =
          (if vs_handle d = 0 then [GlCreateShader GL_VERTEX_SHADER]
           else if fs_handle d = 0 then
             [GlCreateShader GL_VERTEX_SHADER, GlCreateShader GL_FRAGMENT_SHADER]
           else
             GlCreateShader GL_VERTEX_SHADER # GlCreateShader GL_FRAGMENT_SHADER # cs1 @
             (if compile_status (vs_driver d) = 0 then []
              else cs2 @
                (if compile_status (fs_driver d) = 0 then []
                 else GlCreateProgram #
                   (if program_handle d = 0 then []
                    else [GlAttachShader (program_handle d) (vs_handle d),
                          GlAttachShader (program_handle d) (fs_handle d),
                          GlLinkProgram (program_handle d),
                          GlGetProgramiv (program_handle d) GL_INFO_LOG_LENGTH] @
                         (if link_log_length d > 0
                          then [GlGetProgramInfoLog (program_handle d) (link_log_length d)]
                          else []) @
                         [GlGetProgramiv (program_handle d) GL_LINK_STATUS] @
                         (if link_status d = 0 then []
                          else [GlDeleteShader (vs_handle d), GlDeleteShader (fs_handle d)])))))"
      and tr: "trace w' = trace w @ cs"
    by blast
  have "list_all build_call cs"
    using compile_calls_build_calls [OF b(1)] compile_calls_build_calls [OF b(2)]
    by (simp add: cs build_call_def)
  with tr show "\<exists>cs. trace w' = trace w @ cs \<and> list_all build_call cs" by blast
qed

lemma createProgram_returns:
  assumes "vs_handle d = 0 \<or> fs_handle d = 0 \<or>
           (length vertSource < 2 ^ 32 \<and> length fragSource < 2 ^ 32)"
  shows "\<exists>r w'. createProgram d vertSource fragSource w = Some (r, w')"
proof (cases "vs_handle d = 0 \<or> fs_handle d = 0")
  case True
  then show ?thesis by (auto simp: createProgram_def Let_def)
next
  case False
  with assms have short: "length vertSource < 2 ^ 32" "length fragSource < 2 ^ 32" by simp_all
  let ?w2 = "emit [GlCreateShader GL_FRAGMENT_SHADER] (emit [GlCreateShader GL_VERTEX_SHADER] w)"
  from compileShader_returns [OF short(1)] obtain ok1 w3
    where c1: "compileShader (vs_driver d) (vs_handle d) vertSource ?w2 = Some (ok1, w3)"
    by blast
  from compileShader_returns [OF short(2)] obtain ok2 w4
    where c2: "compileShader (fs_driver d) (fs_handle d) fragSource w3 = Some (ok2, w4)"
    by blast
  from False c1 c2 show ?thesis
    by (simp add: createProgram_def Let_def)
qed

lemma createProgram_hangs:
  assumes "vs_handle d \<noteq> 0" and "fs_handle d \<noteq> 0" and "2 ^ 32 \<le> length vertSource"
  shows "createProgram d vertSource fragSource w = None"
  using assms by (simp add: createProgram_def Let_def compileShader_hangs)

lemma embedded_builds_return:
  "\<exists>r w'. createProgram d quadVertSource quad1FragSource w = Some (r, w')"
  "\<exists>r w'. createProgram d texVertSource texFragSource w = Some (r, w')"
  by (rule createProgram_returns, simp add: embedded_sources_short)+

subsection \<open>The frame loop\<close>

lemma loop_body_trace:
  "trace (loop_body v f (snd (glfwWindowShouldClose (window v) w))) = trace w @ frame_calls v f"
  by (simp add: loop_body_def poll_exit_key_def glfwWindowShouldClose_def
      glfwSetWindowShouldClose_TRUE_def glfwPollEvents_def emit_def Let_def frame_calls_def
      pass_A_calls_def pass_B_calls_def att1_def)

lemma loop_body_frame:
  "shouldClose (loop_body v f w) = (shouldClose w \<or> closing f) \<and>
   cout (loop_body v f w) = cout w \<and> cerr (loop_body v f w) = cerr w \<and>
   gl_errors (loop_body v f w) = gl_errors w"
  by (auto simp: loop_body_def poll_exit_key_def glfwSetWindowShouldClose_TRUE_def
      glfwPollEvents_def emit_def Let_def closing_def)

lemma frame_loop_trace:
  "trace (snd (frame_loop v fs w)) =
   trace w @ concat (map (frame_calls v) (executed (shouldClose w) fs)) @
   [GlfwWindowShouldClose (window v)]"
proof (induction fs arbitrary: w)
  case Nil
  show ?case by (simp add: glfwWindowShouldClose_def emit_def)
next
  case (Cons f rest)
  show ?case
  proof (cases "shouldClose w")
    case True
    then show ?thesis by (simp add: glfwWindowShouldClose_def emit_def)
  next
    case False
    let ?w1 = "snd (glfwWindowShouldClose (window v) w)"
    have "frame_loop v (f # rest) w = frame_loop v rest (loop_body v f ?w1)"
      using False by (simp add: glfwWindowShouldClose_def)
    moreover have "shouldClose (loop_body v f ?w1) = closing f"
      using False by (simp add: loop_body_frame glfwWindowShouldClose_def emit_def)
    ultimately show ?thesis
      using False Cons.IH [of "loop_body v f ?w1"] by (simp add: loop_body_trace)
  qed
qed

lemma frame_loop_frame:
  "fst (frame_loop v fs w) = (shouldClose w \<or> list_ex closing fs) \<and>
   shouldClose (snd (frame_loop v fs w)) = (shouldClose w \<or> list_ex closing fs) \<and>
   cout (snd (frame_loop v fs w)) = cout w \<and> cerr (snd (frame_loop v fs w)) = cerr w \<and>
   gl_errors (snd (frame_loop v fs w)) = gl_errors w"
proof (induction fs arbitrary: w)
  case Nil
  show ?case by (simp add: glfwWindowShouldClose_def emit_def)
next
  case (Cons f rest)
  show ?case
    using Cons.IH [of "loop_body v f (snd (glfwWindowShouldClose (window v) w))"]
    by (auto simp: glfwWindowShouldClose_def emit_def loop_body_frame)
qed

lemma executed_idle: "executed False (replicate n idle_frame) = replicate n idle_frame"
  by (induction n) (simp_all add: closing_def idle_frame_def)

lemma executed_prefix: "\<exists>n \<le> length fs. executed close fs = take n fs"
proof (induction fs arbitrary: close)
  case Nil
  show ?case by simp
next
  case (Cons f rest)
  show ?case
  proof (cases close)
    case True
    then show ?thesis by (intro exI [of _ 0]) simp
  next
    case False
    from Cons.IH [of "closing f"] obtain n where "n \<le> length rest"
      and "executed (closing f) rest = take n rest" by blast
    with False show ?thesis by (intro exI [of _ "Suc n"]) simp
  qed
qed

lemma executed_stops:
  "k < length fs \<Longrightarrow> closing (fs ! k) \<Longrightarrow> length (executed close fs) \<le> Suc k"
proof (induction fs arbitrary: close k)
  case Nil
  then show ?case by simp
next
  case (Cons f rest)
  show ?case
  proof (cases k)
    case 0
    with Cons.prems show ?thesis by (cases rest) auto
  next
    case (Suc j)
    with Cons.prems Cons.IH [of j "closing f"] show ?thesis by auto
  qed
qed

subsection \<open>The error helpers\<close>

lemma getErrorMessage_nonempty:
  "gl_errors w = err # es \<Longrightarrow> err \<noteq> GL_NO_ERROR \<Longrightarrow> fst (getErrorMessage w) \<noteq> []"
  by (simp add: getErrorMessage_def glGetError_def)

lemma error_effect:
  "trace (snd (error w)) = trace w @ [GlGetError] \<and>
   gl_errors (snd (error w)) = tl (gl_errors w) \<and>
   fst (error w) = (gl_errors w \<noteq> [] \<and> hd (gl_errors w) \<noteq> GL_NO_ERROR) \<and>
   shouldClose (snd (error w)) = shouldClose w \<and>
   cout (snd (error w)) = cout w \<and>
   cerr (snd (error w)) = cerr w @
     (if fst (error w) then
        ''OpenGL error: '' @ show_int (sint (hd (gl_errors w))) @ endl @
        ''Error string: '' @ getErrorDescr (hd (gl_errors w)) @ endl
      else [])"
  by (cases "gl_errors w")
    (auto simp: error_def getErrorMessage_def glGetError_def emit_def print_err_def Let_def)

subsection \<open>The startup\<close>

lemma count_build_calls:
  "list_all build_call cs \<Longrightarrow> count_list cs GlGetError = 0"
  by (induction cs) (auto simp: build_call_def)

text \<open>Both builds of the startup return: the embedded sources are short.\<close>

lemma startup_builds:
  "\<exists>w3 w4 cs1 cs2.
     createProgram (quad1_driver e) quadVertSource quad1FragSource w2 =
       Some (program_result (quad1_driver e), w3) \<and>
     createProgram (tex_driver e) texVertSource texFragSource w3 =
       Some (program_result (tex_driver e), w4) \<and>
     list_all build_call cs1 \<and> list_all build_call cs2 \<and>
     trace w4 = trace w2 @ cs1 @ cs2 \<and>
     shouldClose w4 = shouldClose w2 \<and> gl_errors w4 = gl_errors w2"
proof -
  from embedded_builds_return(1) obtain rA w3
    where A: "createProgram (quad1_driver e) quadVertSource quad1FragSource w2 = Some (rA, w3)"
    by blast
  from embedded_builds_return(2) obtain rB w4
    where B: "createProgram (tex_driver e) texVertSource texFragSource w3 = Some (rB, w4)"
    by blast
  from createProgram_spec(5) [OF A] obtain cs1
    where cs1: "trace w3 = trace w2 @ cs1" "list_all build_call cs1" by blast
  from createProgram_spec(5) [OF B] obtain cs2
    where cs2: "trace w4 = trace w3 @ cs2" "list_all build_call cs2" by blast
  show ?thesis
    using A B cs1 cs2 createProgram_spec(1-3) [OF A] createProgram_spec(1-3) [OF B]
    by (intro exI [of _ w3] exI [of _ w4] exI [of _ cs1] exI [of _ cs2]) simp
qed

lemma startup_reaches_loop:
  assumes "startup_passes e"
  shows "\<exists>w cs1 cs2. startup e = Some (Inr (loop_locals e, w)) \<and>
           list_all build_call cs1 \<and> list_all build_call cs2 \<and>
           trace w = startup_head_calls e @ cs1 @ cs2 @ startup_tail_calls e \<and>
           \<not> shouldClose w"
proof -
  let ?w2 = "emit [GlfwMakeContextCurrent (created_window e), GlewInit]
      (emit [GlfwWindowHint GLFW_CONTEXT_VERSION_MAJOR 3,
             GlfwWindowHint GLFW_CONTEXT_VERSION_MINOR 3,
             GlfwWindowHintProfile GLFW_OPENGL_PROFILE GLFW_OPENGL_CORE_PROFILE,
             GlfwCreateWindow 800 600 ''Shader test''] (emit [GlfwInit] initial_world))"
  have t2: "trace ?w2 = startup_head_calls e"
    by (simp add: emit_def initial_world_def startup_head_calls_def)
  from startup_builds [of e ?w2] obtain w3 w4 cs1 cs2
    where A: "createProgram (quad1_driver e) quadVertSource quad1FragSource ?w2 =
                Some (program_result (quad1_driver e), w3)"
      and B: "createProgram (tex_driver e) texVertSource texFragSource w3 =
                Some (program_result (tex_driver e), w4)"
      and b: "list_all build_call cs1" "list_all build_call cs2"
      and tr: "trace w4 = trace ?w2 @ cs1 @ cs2"
      and fr: "shouldClose w4 = shouldClose ?w2" "gl_errors w4 = gl_errors ?w2"
    by blast
  have f4: "\<not> shouldClose w4" "gl_errors w4 = []"
    by (simp_all add: fr emit_def initial_world_def)
  have t4: "trace w4 = startup_head_calls e @ cs1 @ cs2"
    by (simp only: tr t2)
  have st: "startup e = Some (prepare e (created_window e) (program_result (quad1_driver e))
      (program_result (tex_driver e)) w4)"
    using assms by (simp add: startup_def startup_passes_def Let_def A B)
  have "\<exists>w. prepare e (created_window e) (program_result (quad1_driver e))
            (program_result (tex_driver e)) w4 = Inr (loop_locals e, w) \<and>
          trace w = trace w4 @ startup_tail_calls e \<and> \<not> shouldClose w"
    using assms f4
    by (auto simp: prepare_def startup_passes_def Let_def split_def loop_locals_def
        error_effect driver_records_def emit_def startup_tail_calls_def fullscreenQuad_def)
  with st t4 b show ?thesis by auto
qed

lemma startup_stops:
  assumes "\<not> startup_passes e"
  shows "\<exists>w. startup e =
           Some (Inl (if \<not> glfwInit_ok e then Exit 3
                else if created_window e = 0 then Exit 1
                else if \<not> glewInit_ok e then Exit 2
                else Aborted, w))"
proof (cases "glfwInit_ok e \<and> created_window e \<noteq> 0 \<and> glewInit_ok e")
  case False
  then show ?thesis by (auto simp: startup_def Let_def)
next
  case True
  let ?w2 = "emit [GlfwMakeContextCurrent (created_window e), GlewInit]
      (emit [GlfwWindowHint GLFW_CONTEXT_VERSION_MAJOR 3,
             GlfwWindowHint GLFW_CONTEXT_VERSION_MINOR 3,
             GlfwWindowHintProfile GLFW_OPENGL_PROFILE GLFW_OPENGL_CORE_PROFILE,
             GlfwCreateWindow 800 600 ''Shader test''] (emit [GlfwInit] initial_world))"
  from startup_builds [of e ?w2] obtain w3 w4
    where A: "createProgram (quad1_driver e) quadVertSource quad1FragSource ?w2 =
                Some (program_result (quad1_driver e), w3)"
      and B: "createProgram (tex_driver e) texVertSource texFragSource w3 =
                Some (program_result (tex_driver e), w4)"
      and fr: "gl_errors w4 = gl_errors ?w2"
    by blast
  have f4: "gl_errors w4 = []"
    by (simp add: fr emit_def initial_world_def)
  have st: "startup e = Some (prepare e (created_window e) (program_result (quad1_driver e))
      (program_result (tex_driver e)) w4)"
    using True by (simp add: startup_def Let_def A B)
  have "\<exists>w. prepare e (created_window e) (program_result (quad1_driver e))
            (program_result (tex_driver e)) w4 = Inl (Aborted, w)"
    using assms True f4
    by (auto simp: prepare_def startup_passes_def Let_def split_def error_effect
        driver_records_def emit_def)
  with st True show ?thesis by auto
qed

subsection \<open>Whole runs\<close>

lemma final_world_eq: "main e = Some (status, w) \<Longrightarrow> final_world e = w"
  by (simp add: final_world_def)

lemma main_run:
  assumes "startup_passes e"
  shows "\<exists>cs1 cs2 out.
           list_all build_call cs1 \<and> list_all build_call cs2 \<and>
           main e = Some (if list_ex closing (frames e) then Exit 0 else Running, final_world e) \<and>
           shouldClose (final_world e) = list_ex closing (frames e) \<and>
           trace (final_world e) =
             startup_head_calls e @ cs1 @ cs2 @ startup_tail_calls e @
             concat (map (frame_calls (loop_locals e)) (executed False (frames e))) @
             [GlfwWindowShouldClose (created_window e)] @
             (if list_ex closing (frames e) then shutdown_calls (loop_locals e) else []) \<and>
           cout (final_world e) =
             out @ (if list_ex closing (frames e) then ''Finishing...'' @ endl else [])"
proof -
  from startup_reaches_loop [OF assms] obtain w cs1 cs2
    where st: "startup e = Some (Inr (loop_locals e, w))"
      and b: "list_all build_call cs1" "list_all build_call cs2"
      and tr: "trace w = startup_head_calls e @ cs1 @ cs2 @ startup_tail_calls e"
      and fl: "\<not> shouldClose w"
    by blast
  let ?r = "frame_loop (loop_locals e) (frames e) w"
  have left: "fst ?r = list_ex closing (frames e)"
    and flag: "shouldClose (snd ?r) = list_ex closing (frames e)"
    and out: "cout (snd ?r) = cout w"
    using fl by (simp_all add: frame_loop_frame)
  have ltr: "trace (snd ?r) = trace w @
      concat (map (frame_calls (loop_locals e)) (executed False (frames e))) @
      [GlfwWindowShouldClose (created_window e)]"
    using fl by (simp add: frame_loop_trace loop_locals_def)
  have m: "main e = Some (if fst ?r then shutdown (loop_locals e) (snd ?r) else (Running, snd ?r))"
    by (simp add: main_def st split_def)
  show ?thesis
  proof (cases "list_ex closing (frames e)")
    case True
    with m left have m': "main e = Some (shutdown (loop_locals e) (snd ?r))" by simp
    then have fw: "final_world e = snd (shutdown (loop_locals e) (snd ?r))"
      by (simp add: final_world_def split_def)
    from m' have "main e = Some (Exit 0, final_world e)"
      by (simp add: fw) (simp add: shutdown_def Let_def)
    then show ?thesis
      using True b tr ltr flag out
      by (intro exI [of _ cs1] exI [of _ cs2] exI [of _ "cout w"])
        (simp add: fw shutdown_def shutdown_calls_def Let_def emit_def print_out_def)
  next
    case False
    with m left have m': "main e = Some (Running, snd ?r)" by simp
    then have fw: "final_world e = snd ?r" by (rule final_world_eq)
    from m' show ?thesis
      using False b tr ltr flag out
      by (intro exI [of _ cs1] exI [of _ cs2] exI [of _ "cout w"]) (simp add: fw)
  qed
qed

lemma main_stops:
  assumes "\<not> startup_passes e"
  shows "main e =
           Some (if \<not> glfwInit_ok e then Exit 3
            else if created_window e = 0 then Exit 1
            else if \<not> glewInit_ok e then Exit 2
            else Aborted, final_world e)"
proof -
  from startup_stops [OF assms] obtain w where "startup e =
           Some (Inl (if \<not> glfwInit_ok e then Exit 3
                else if created_window e = 0 then Exit 1
                else if \<not> glewInit_ok e then Exit 2
                else Aborted, w))" by blast
  then have m: "main e = Some (if \<not> glfwInit_ok e then Exit 3
                else if created_window e = 0 then Exit 1
                else if \<not> glewInit_ok e then Exit 2
                else Aborted, w)"
    by (simp add: main_def)
  then have "final_world e = w" by (rule final_world_eq)
  with m show ?thesis by simp
qed

text \<open>Every run of \<open>main\<close> returns.\<close>

lemma main_returns: "\<exists>status. main e = Some (status, final_world e)"
proof (cases "startup_passes e")
  case True
  from main_run [OF True] show ?thesis by blast
next
  case False
  from main_stops [OF False] show ?thesis by blast
qed

subsection \<open>Reading a trace\<close>

lemma observe_append: "observe s (a @ b) = observe s a @ observe (fold gl_step a s) b"
  by (induction a arbitrary: s) simp_all

lemma build_call_unobserved: "build_call c \<Longrightarrow> observe_call s c = [] \<and> gl_step c s = s"
  by (cases c) (simp_all add: build_call_def observe_call_def gl_step_def)

lemma build_calls_unobserved:
  "list_all build_call cs \<Longrightarrow> observe s cs = [] \<and> fold gl_step cs s = s"
  by (induction cs arbitrary: s) (simp_all add: build_call_unobserved)

lemma head_calls_unobserved:
  "observe s (startup_head_calls e) = [] \<and> fold gl_step (startup_head_calls e) s = s"
  by (simp add: startup_head_calls_def observe_call_def gl_step_def)

lemma tail_calls_unobserved:
  "observe s (startup_tail_calls e) = [] \<and>
   fold gl_step (startup_tail_calls e) s = \<lparr>clear_colour = opaque_black, texture_2d = 0\<rparr>"
  by (simp add: startup_tail_calls_def observe_call_def gl_step_def opaque_black_def)

lemma frame_observed:
  "texture_2d s = 0 \<Longrightarrow>
   observe s (frame_calls v f) =
     [Cleared_with (clear_colour s), Drew_with 0, Drew_with (snd (tex v))] \<and>
   fold gl_step (frame_calls v f) s = s"
  by (simp add: frame_calls_def pass_A_calls_def pass_B_calls_def observe_call_def gl_step_def)

lemma frames_observed:
  "texture_2d s = 0 \<Longrightarrow>
   observe s (concat (map (frame_calls v) fs)) =
     concat (map (\<lambda>f. [Cleared_with (clear_colour s), Drew_with 0, Drew_with (snd (tex v))]) fs) \<and>
   fold gl_step (concat (map (frame_calls v) fs)) s = s"
  by (induction fs) (simp_all add: observe_append frame_observed)

lemma rest_unobserved:
  "observe s [GlfwWindowShouldClose win] = []"
  "observe s (if b then shutdown_calls v else []) = []"
  by (simp_all add: shutdown_calls_def observe_call_def gl_step_def)

lemma main_observed:
  assumes "startup_passes e"
  shows "observe gl_initial (trace (final_world e)) =
           concat (map (\<lambda>f. [Cleared_with opaque_black, Drew_with 0, Drew_with (snd (gen_tex e))])
             (executed False (frames e)))"
proof -
  from main_run [OF assms] obtain cs1 cs2
    where b: "list_all build_call cs1" "list_all build_call cs2"
      and tr: "trace (final_world e) =
             startup_head_calls e @ cs1 @ cs2 @ startup_tail_calls e @
             concat (map (frame_calls (loop_locals e)) (executed False (frames e))) @
             [GlfwWindowShouldClose (created_window e)] @
             (if list_ex closing (frames e) then shutdown_calls (loop_locals e) else [])"
    by blast
  let ?s = "\<lparr>clear_colour = opaque_black, texture_2d = 0\<rparr>"
  have fr: "observe ?s (concat (map (frame_calls (loop_locals e)) (executed False (frames e)))) =
      concat (map (\<lambda>f. [Cleared_with opaque_black, Drew_with 0, Drew_with (snd (gen_tex e))])
             (executed False (frames e)))"
    and fr': "fold gl_step (concat (map (frame_calls (loop_locals e)) (executed False (frames e)))) ?s = ?s"
    using frames_observed [of ?s "loop_locals e" "executed False (frames e)"]
    by (simp_all add: loop_locals_def)
  show ?thesis
    unfolding tr
    by (simp only: observe_append head_calls_unobserved build_calls_unobserved [OF b(1)]
        build_calls_unobserved [OF b(2)] tail_calls_unobserved fr fr' rest_unobserved
        append_Nil append_Nil2 gl_initial_def)
qed

subsection \<open>Further facts about runs, builds and traces\<close>

lemma demo_passes: "startup_passes (demo_environment fs)"
  by (simp add: startup_passes_def demo_environment_def)

lemma demo_fields:
  "frames (demo_environment fs) = fs"
  "gen_tex (demo_environment fs) = (1, 2)"
  "quad1_driver (demo_environment fs) = good_driver 3"
  "tex_driver (demo_environment fs) = good_driver 6"
  "created_window (demo_environment fs) = 1"
  by (simp_all add: demo_environment_def)

lemma good_driver_result: "program \<noteq> 0 \<Longrightarrow> program_result (good_driver program) = program"
  by (simp add: program_result_def build_outcome_def good_driver_def good_shader_def)

lemma frames_query_no_error:
  "count_list (concat (map (frame_calls v) fs)) GlGetError = 0"
  by (induction fs) (simp_all add: frame_calls_def pass_A_calls_def pass_B_calls_def)

lemma stopped_early:
  assumes "\<not> (glfwInit_ok e \<and> created_window e \<noteq> 0 \<and> glewInit_ok e)"
  shows "count_list (trace (final_world e)) GlGetError = 0"
  using assms
  by (auto simp: final_world_def main_def startup_def Let_def emit_def print_err_def
      initial_world_def)

lemma stopped_late:
  assumes init: "glfwInit_ok e" "created_window e \<noteq> 0" "glewInit_ok e"
    and "\<not> startup_passes e"
  shows "count_list (trace (final_world e)) GlGetError = (if framebuffer_complete e then 1 else 0)"
proof -
  let ?w2 = "emit [GlfwMakeContextCurrent (created_window e), GlewInit]
      (emit [GlfwWindowHint GLFW_CONTEXT_VERSION_MAJOR 3,
             GlfwWindowHint GLFW_CONTEXT_VERSION_MINOR 3,
             GlfwWindowHintProfile GLFW_OPENGL_PROFILE GLFW_OPENGL_CORE_PROFILE,
             GlfwCreateWindow 800 600 ''Shader test''] (emit [GlfwInit] initial_world))"
  from startup_builds [of e ?w2] obtain w3 w4 cs1 cs2
    where A: "createProgram (quad1_driver e) quadVertSource quad1FragSource ?w2 =
                Some (program_result (quad1_driver e), w3)"
      and B: "createProgram (tex_driver e) texVertSource texFragSource w3 =
                Some (program_result (tex_driver e), w4)"
      and b: "list_all build_call cs1" "list_all build_call cs2"
      and tr: "trace w4 = trace ?w2 @ cs1 @ cs2"
      and fr: "gl_errors w4 = gl_errors ?w2"
    by blast
  have c4: "count_list (trace w4) GlGetError = 0"
    by (simp add: tr count_build_calls [OF b(1)] count_build_calls [OF b(2)])
      (simp add: emit_def initial_world_def)
  have f4: "gl_errors w4 = []"
    by (simp add: fr emit_def initial_world_def)
  have nd: "\<not> ndebug e" using assms by (auto simp: startup_passes_def)
  have st: "startup e = Some (prepare e (created_window e) (program_result (quad1_driver e))
      (program_result (tex_driver e)) w4)"
    using init by (simp add: startup_def Let_def A B)
  show ?thesis
  proof (cases "framebuffer_complete e")
    case False
    with init nd f4 c4 show ?thesis
      by (simp add: final_world_def main_def st prepare_def Let_def split_def emit_def)
  next
    case True
    with assms nd have err: "setup_errors e \<noteq> [] \<and> hd (setup_errors e) \<noteq> GL_NO_ERROR"
      by (auto simp: startup_passes_def)
    with True init nd f4 c4 show ?thesis
      by (simp add: final_world_def main_def st prepare_def Let_def split_def error_effect
          driver_records_def emit_def)
  qed
qed

lemma stopped_error_queries:
  assumes "\<not> startup_passes e"
  shows "count_list (trace (final_world e)) GlGetError =
           (if glfwInit_ok e \<and> created_window e \<noteq> 0 \<and> glewInit_ok e \<and> \<not> ndebug e \<and>
               framebuffer_complete e then 1 else 0)"
proof (cases "glfwInit_ok e \<and> created_window e \<noteq> 0 \<and> glewInit_ok e")
  case False
  then show ?thesis using stopped_early [of e] by auto
next
  case True
  moreover from True assms have "\<not> ndebug e" by (auto simp: startup_passes_def)
  ultimately show ?thesis using stopped_late [of e] assms by simp
qed

lemma main_error_queries:
  "count_list (trace (final_world e)) GlGetError =
     (if glfwInit_ok e \<and> created_window e \<noteq> 0 \<and> glewInit_ok e \<and> \<not> ndebug e \<and>
         framebuffer_complete e then 1 else 0)"
proof (cases "startup_passes e")
  case False
  then show ?thesis by (rule stopped_error_queries)
next
  case True
  from main_run [OF True] obtain cs1 cs2
    where b: "list_all build_call cs1" "list_all build_call cs2"
      and tr: "trace (final_world e) =
             startup_head_calls e @ cs1 @ cs2 @ startup_tail_calls e @
             concat (map (frame_calls (loop_locals e)) (executed False (frames e))) @
             [GlfwWindowShouldClose (created_window e)] @
             (if list_ex closing (frames e) then shutdown_calls (loop_locals e) else [])"
    by blast
  have "count_list (trace (final_world e)) GlGetError = (if ndebug e then 0 else 1)"
    unfolding tr
    by (simp add: count_build_calls [OF b(1)] count_build_calls [OF b(2)] frames_query_no_error
        startup_head_calls_def startup_tail_calls_def shutdown_calls_def)
  with True show ?thesis by (auto simp: startup_passes_def)
qed

lemma closing_frame_leaves: "k < length fs \<Longrightarrow> closing (fs ! k) \<Longrightarrow> list_ex closing fs"
  by (auto simp: list_ex_iff)

lemma build_calls_keep_programs:
  "list_all build_call cs \<Longrightarrow> list_all (\<lambda>c. \<not> deletes_program c) cs"
  by (induction cs) (auto simp: build_call_def deletes_program_def split: call.splits)

lemma frames_keep_programs:
  "list_all (\<lambda>c. \<not> deletes_program c) (concat (map (frame_calls v) fs))"
  by (induction fs)
    (simp_all add: frame_calls_def pass_A_calls_def pass_B_calls_def deletes_program_def)



lemma kept_programs_not_deleted:
  "list_all (\<lambda>c. \<not> deletes_program c) cs \<Longrightarrow> GlDeleteProgram p \<notin> set cs"
  by (induction cs) (auto simp: deletes_program_def)

section \<open>The claims\<close>

text \<open>
  C1, as stated, fails: the colour pass A clears with is not blue. In a run of one
  frame without input, in an environment where everything succeeds, the only clear
  uses opaque black, the colour \<open>glClearColor(0, 0, 0, 1)\<close> set at startup; blue
  occurs in the program only inside the GLSL text of program A. The close flag
  does not stay false on the absence of key input alone either: a close request
  from the windowing system sets it and the process ends with code 0.
\<close>

theorem idle_run_clears_black_counterexample:
  "observe gl_initial (trace (final_world (demo_environment [idle_frame]))) =
     [Cleared_with opaque_black, Drew_with 0, Drew_with 2] \<and>
   opaque_black \<noteq> opaque_blue \<and>
   map_option fst (main (demo_environment [\<lparr>escape_pressed = False, close_requested = True\<rparr>])) =
     Some (Exit 0) \<and>
   shouldClose (final_world (demo_environment [\<lparr>escape_pressed = False, close_requested = True\<rparr>]))"
proof -
  have "observe gl_initial (trace (final_world (demo_environment [idle_frame]))) =
     [Cleared_with opaque_black, Drew_with 0, Drew_with 2]"
    using main_observed [OF demo_passes, of "[idle_frame]"]
    by (simp add: demo_fields closing_def idle_frame_def)
  moreover have "opaque_black \<noteq> opaque_blue"
    by (simp add: opaque_black_def opaque_blue_def)
  moreover have
    "map_option fst (main (demo_environment [\<lparr>escape_pressed = False, close_requested = True\<rparr>])) =
       Some (Exit 0) \<and>
     shouldClose (final_world (demo_environment [\<lparr>escape_pressed = False, close_requested = True\<rparr>]))"
    using main_run [OF demo_passes, of "[\<lparr>escape_pressed = False, close_requested = True\<rparr>]"]
    by (auto simp: demo_fields closing_def)
  ultimately show ?thesis by blast
qed

text \<open>
  C1, amended: for every \<open>N\<close>, a run that passes the startup and then sees \<open>N\<close>
  frames with neither the exit key pressed nor a close request is still in the
  loop after them, with the close flag false and exactly \<open>N\<close> iterations
  issued. Each of the \<open>N\<close> clears of pass A uses the clear colour
  opaque black, which is not blue. In each frame pass A draws with no texture
  bound and pass B draws with \<open>tex[1]\<close> bound, the texture the startup attached to
  attachment 1. When \<open>glGenTextures\<close> has written two distinct nonzero names, as
  OpenGL specifies, the texture of attachment 0, \<open>tex[0]\<close>, is bound at no draw
  of either pass. What the image shows is the driver's rasterisation of these
  calls and is not part of the statement.
\<close>

theorem idle_frames_keep_running:
  assumes "startup_passes e" and "frames e = replicate N idle_frame"
  shows "map_option fst (main e) = Some Running \<and> \<not> shouldClose (final_world e) \<and>
         (\<exists>w. startup e = Some (Inr (loop_locals e, w))) \<and>
         (\<exists>before. trace (final_world e) =
            before @ concat (replicate N (frame_calls (loop_locals e) idle_frame)) @
            [GlfwWindowShouldClose (created_window e)]) \<and>
         observe gl_initial (trace (final_world e)) =
           concat (replicate N [Cleared_with opaque_black, Drew_with 0, Drew_with (snd (gen_tex e))]) \<and>
         opaque_black \<noteq> opaque_blue \<and>
         GlFramebufferTexture2D GL_FRAMEBUFFER GL_COLOR_ATTACHMENT0 GL_TEXTURE_2D (fst (gen_tex e)) 0
           \<in> set (trace (final_world e)) \<and>
         GlFramebufferTexture2D GL_FRAMEBUFFER GL_COLOR_ATTACHMENT1 GL_TEXTURE_2D (snd (gen_tex e)) 0
           \<in> set (trace (final_world e)) \<and>
         (fst (gen_tex e) \<noteq> 0 \<and> fst (gen_tex e) \<noteq> snd (gen_tex e) \<longrightarrow>
            Drew_with (fst (gen_tex e)) \<notin> set (observe gl_initial (trace (final_world e))))"
proof -
  have quiet: "\<not> list_ex closing (frames e)"
    by (simp add: assms(2) list_ex_iff closing_def idle_frame_def)
  have ex: "executed False (frames e) = replicate N idle_frame"
    by (simp add: assms(2) executed_idle)
  from main_run [OF assms(1)] quiet ex obtain cs1 cs2
    where run: "main e = Some (Running, final_world e)" and flag: "\<not> shouldClose (final_world e)"
      and tr: "trace (final_world e) =
             startup_head_calls e @ cs1 @ cs2 @ startup_tail_calls e @
             concat (map (frame_calls (loop_locals e)) (replicate N idle_frame)) @
             [GlfwWindowShouldClose (created_window e)]"
    by auto
  have status: "map_option fst (main e) = Some Running" by (simp add: run)
  have head: "\<exists>w. startup e = Some (Inr (loop_locals e, w))"
    using startup_reaches_loop [OF assms(1)] by blast
  have calls: "\<exists>before. trace (final_world e) =
            before @ concat (replicate N (frame_calls (loop_locals e) idle_frame)) @
            [GlfwWindowShouldClose (created_window e)]"
    by (intro exI [of _ "startup_head_calls e @ cs1 @ cs2 @ startup_tail_calls e"])
      (simp add: tr map_replicate_const)
  have "set (startup_tail_calls e) \<subseteq> set (trace (final_world e))"
    by (auto simp: tr)
  then have att:
    "GlFramebufferTexture2D GL_FRAMEBUFFER GL_COLOR_ATTACHMENT0 GL_TEXTURE_2D (fst (gen_tex e)) 0
       \<in> set (trace (final_world e))"
    "GlFramebufferTexture2D GL_FRAMEBUFFER GL_COLOR_ATTACHMENT1 GL_TEXTURE_2D (snd (gen_tex e)) 0
       \<in> set (trace (final_world e))"
    by (auto simp: startup_tail_calls_def)
  have obs: "observe gl_initial (trace (final_world e)) =
           concat (replicate N [Cleared_with opaque_black, Drew_with 0, Drew_with (snd (gen_tex e))])"
    using main_observed [OF assms(1)] by (simp add: ex map_replicate_const)
  have colours: "opaque_black \<noteq> opaque_blue"
    by (simp add: opaque_black_def opaque_blue_def)
  have unread: "fst (gen_tex e) \<noteq> 0 \<and> fst (gen_tex e) \<noteq> snd (gen_tex e) \<longrightarrow>
            Drew_with (fst (gen_tex e)) \<notin> set (observe gl_initial (trace (final_world e)))"
    unfolding obs by auto
  from status flag head calls obs colours att unread show ?thesis by blast
qed

text \<open>Two idle frames in the environment in which everything succeeds.\<close>

theorem idle_frames_keep_running_witness:
  "startup_passes (demo_environment (replicate 2 idle_frame)) \<and>
   frames (demo_environment (replicate 2 idle_frame)) = replicate 2 idle_frame \<and>
   gen_tex (demo_environment (replicate 2 idle_frame)) = (1, 2) \<and>
   map_option fst (main (demo_environment (replicate 2 idle_frame))) = Some Running \<and>
   \<not> shouldClose (final_world (demo_environment (replicate 2 idle_frame))) \<and>
   observe gl_initial (trace (final_world (demo_environment (replicate 2 idle_frame)))) =
     [Cleared_with opaque_black, Drew_with 0, Drew_with 2,
      Cleared_with opaque_black, Drew_with 0, Drew_with 2] \<and>
   Drew_with 1 \<notin>
     set (observe gl_initial (trace (final_world (demo_environment (replicate 2 idle_frame)))))"
proof -
  have p: "startup_passes (demo_environment (replicate 2 idle_frame))" by (rule demo_passes)
  have f: "frames (demo_environment (replicate 2 idle_frame)) = replicate 2 idle_frame"
    by (simp add: demo_fields)
  show ?thesis
    using p f idle_frames_keep_running [OF p f]
    by (simp add: demo_fields numeral_2_eq_2)
qed

text \<open>
  C2, as stated, fails for a source that does not end with a newline: the text
  after the last newline is in no entry. Here the source is a version line and an
  unterminated second line; the split ends with one entry, the 13 characters at
  offset 0, and the second line is lost. The claim also fails for a source of
  \<open>2^32\<close> bytes or more, for which the split never ends (\<open>split_lines_never_ends\<close>).
\<close>

theorem split_drops_unterminated_line_counterexample:
  "newlines ''#version 330\<newline>void main(){}'' = 1 \<and>
   split_lines ''#version 330\<newline>void main(){}'' =
     Some \<lparr>idx = 1, lineStart = 13, lineLength = 14, sourceLines = [Some 0],
           lengths = [Some 13], overrun = False\<rparr> \<and>
   submitted_text ''#version 330\<newline>void main(){}''
     \<lparr>idx = 1, lineStart = 13, lineLength = 14, sourceLines = [Some 0],
      lengths = [Some 13], overrun = False\<rparr> = ''#version 330\<newline>'' \<and>
   ''#version 330\<newline>'' \<noteq> ''#version 330\<newline>void main(){}''"
  by code_simp

text \<open>
  C2, amended: for every source shorter than \<open>2^31 - 1\<close> bytes, in which no
  counter of the two loops wraps, the split ends and has filled exactly \<open>N\<close>
  cells of each array, \<open>N\<close> the number of newline characters, without writing
  outside them; the text the entries describe is the source itself exactly when
  the source is empty or ends with a newline, as each of the four embedded shader
  sources does.
\<close>

theorem split_reconstructs_terminated_sources:
  assumes "length source < 2 ^ 31 - 1"
  shows "unat (count_lines source) = newlines source \<and>
     (\<exists>s. split_lines source = Some s \<and>
        sint (idx s) = int (newlines source) \<and>
        length (sourceLines s) = newlines source \<and>
        length (lengths s) = newlines source \<and>
        \<not> overrun s \<and>
        list_all (\<lambda>c. c \<noteq> None) (sourceLines s) \<and>
        list_all (\<lambda>c. c \<noteq> None) (lengths s) \<and>
        submitted_text source s = concat (map (submitted_line source s) [0..<newlines source]) \<and>
        ((submitted_text source s = source) = (source = [] \<or> last source = newline))) \<and>
     list_all (\<lambda>embedded. \<exists>s. split_lines embedded = Some s \<and> submitted_text embedded s = embedded)
       [quadVertSource, quad1FragSource, texVertSource, texFragSource]"
proof -
  from split_lines_inv [OF assms] obtain s
    where s: "split_lines source = Some s" and inv: "split_inv source (length source) s"
    by blast
  have "newlines source < 2 ^ 31"
    using newlines_le [of source] assms by simp
  then have "sint (idx s) = int (newlines source)"
    by (simp add: split_final(1) [OF inv] sint_of_nat_small)
  with s split_final(2-4) [OF inv] cells_written [OF inv] submitted_text_lines [OF assms, of s]
    submitted_text_whole [OF assms inv]
  have "\<exists>s. split_lines source = Some s \<and>
        sint (idx s) = int (newlines source) \<and>
        length (sourceLines s) = newlines source \<and>
        length (lengths s) = newlines source \<and>
        \<not> overrun s \<and>
        list_all (\<lambda>c. c \<noteq> None) (sourceLines s) \<and>
        list_all (\<lambda>c. c \<noteq> None) (lengths s) \<and>
        submitted_text source s = concat (map (submitted_line source s) [0..<newlines source]) \<and>
        ((submitted_text source s = source) = (source = [] \<or> last source = newline))"
    by (intro exI [of _ s]) simp
  with count_lines_fits(1) [OF assms] embedded_sources_terminated show ?thesis by blast
qed

text \<open>A source of two terminated lines: two entries, and the whole text.\<close>

theorem split_reconstructs_terminated_sources_witness:
  "length ''a\<newline>bc\<newline>'' < 2 ^ 31 - 1 \<and>
   unat (count_lines ''a\<newline>bc\<newline>'') = 2 \<and>
   (\<exists>s. split_lines ''a\<newline>bc\<newline>'' = Some s \<and> length (sourceLines s) = 2 \<and>
      submitted_text ''a\<newline>bc\<newline>'' s = ''a\<newline>bc\<newline>'')"
proof -
  have short: "length ''a\<newline>bc\<newline>'' < 2 ^ 31 - 1" by simp
  have n: "newlines ''a\<newline>bc\<newline>'' = 2" by (simp add: newlines_def newline_def)
  have l: "last ''a\<newline>bc\<newline>'' = newline" by (simp add: newline_def)
  from split_reconstructs_terminated_sources [OF short] obtain s
    where "unat (count_lines ''a\<newline>bc\<newline>'') = newlines ''a\<newline>bc\<newline>''"
      and "split_lines ''a\<newline>bc\<newline>'' = Some s"
      and "length (sourceLines s) = newlines ''a\<newline>bc\<newline>''"
      and "(submitted_text ''a\<newline>bc\<newline>'' s = ''a\<newline>bc\<newline>'') =
           (''a\<newline>bc\<newline>'' = [] \<or> last ''a\<newline>bc\<newline>'' = newline)"
    by blast
  with short n l show ?thesis by simp
qed




text \<open>
  C4, as stated, fails: \<open>error()\<close> asks \<open>glGetError\<close> once. With two errors
  pending it reports the first and leaves the second pending.
\<close>

theorem error_leaves_second_error_counterexample:
  "fst (error (initial_world\<lparr>gl_errors := [GL_INVALID_ENUM, GL_INVALID_VALUE]\<rparr>)) \<and>
   gl_errors (snd (error (initial_world\<lparr>gl_errors := [GL_INVALID_ENUM, GL_INVALID_VALUE]\<rparr>))) =
     [GL_INVALID_VALUE] \<and>
   cerr (snd (error (initial_world\<lparr>gl_errors := [GL_INVALID_ENUM, GL_INVALID_VALUE]\<rparr>))) =
     ''OpenGL error: 1280\<newline>Error string: An unacceptable value is specified for an enumerated argument.\<newline>''"
  by code_simp

text \<open>
  C4, amended: one call of the helper issues exactly one \<open>glGetError\<close>; it
  removes at most one pending error, reports an error exactly when that one is
  not \<open>GL_NO_ERROR\<close>, and then writes its number and description to standard
  error; further pending errors stay pending. A run of \<open>main\<close> queries the error
  state once, in the assertion after the setup, when it gets that far in a build
  with assertions enabled, and not at all otherwise; no iteration of the frame
  loop queries it.
\<close>

theorem error_reports_one_pending_error:
  "trace (snd (error w)) = trace w @ [GlGetError] \<and>
   gl_errors (snd (error w)) = tl (gl_errors w) \<and>
   fst (error w) = (gl_errors w \<noteq> [] \<and> hd (gl_errors w) \<noteq> GL_NO_ERROR) \<and>
   cerr (snd (error w)) = cerr w @
     (if fst (error w) then
        ''OpenGL error: '' @ show_int (sint (hd (gl_errors w))) @ endl @
        ''Error string: '' @ getErrorDescr (hd (gl_errors w)) @ endl
      else []) \<and>
   (\<exists>status. main e = Some (status, final_world e)) \<and>
   count_list (trace (final_world e)) GlGetError =
     (if glfwInit_ok e \<and> created_window e \<noteq> 0 \<and> glewInit_ok e \<and> \<not> ndebug e \<and>
         framebuffer_complete e then 1 else 0) \<and>
   count_list (frame_calls v f) GlGetError = 0"
  using error_effect [of w] main_error_queries [of e] frames_query_no_error [of v "[f]"]
    main_returns [of e]
  by simp




text \<open>
  C6: the calls of the frame loop are, iteration by iteration, the calls of
  \<open>frame_calls\<close>, followed by the last evaluation of the loop condition. In
  every iteration, after the key poll, pass A binds the offscreen framebuffer as
  draw target, clears the colour buffer, activates program A, sets the draw
  buffers to \<open>att1\<close>, which is \<open>GL_NONE\<close> for slot 0 and \<open>GL_COLOR_ATTACHMENT1\<close>
  for slot 1, and draws 6 vertices as triangles, in this order and before the
  calls of pass B. In a run of \<open>main\<close> that passes the startup these iterations
  are part of the trace, with the framebuffer object of the startup as \<open>fb\<close>.
\<close>

theorem pass_A_call_order:
  "trace (snd (frame_loop v fs w)) =
     trace w @ concat (map (frame_calls v) (executed (shouldClose w) fs)) @
     [GlfwWindowShouldClose (window v)] \<and>
   frame_calls v f =
     [GlfwWindowShouldClose (window v), GlfwGetKey (window v) GLFW_KEY_ESCAPE] @
     (if escape_pressed f then [GlfwSetWindowShouldClose (window v) GLFW_TRUE] else []) @
     [GlBindFramebuffer GL_DRAW_FRAMEBUFFER (fb v),
      GlClear GL_COLOR_BUFFER_BIT,
      GlUseProgram (quad1Program v),
      GlDrawBuffers 2 att1,
      GlDrawArrays GL_TRIANGLES 0 6] @
     pass_B_calls v @ [GlfwSwapBuffers (window v), GlfwPollEvents] \<and>
   att1 = [GL_NONE, GL_COLOR_ATTACHMENT1] \<and>
   (startup_passes e \<longrightarrow>
      (\<exists>loop_head. startup e = Some (Inr (loop_locals e, loop_head))) \<and>
      (\<exists>status. main e = Some (status, final_world e)) \<and>
      fb (loop_locals e) = gen_fb e \<and>
      (\<exists>before after. trace (final_world e) =
         before @ concat (map (frame_calls (loop_locals e)) (executed False (frames e))) @ after))"
proof -
  have loop: "trace (snd (frame_loop v fs w)) =
     trace w @ concat (map (frame_calls v) (executed (shouldClose w) fs)) @
     [GlfwWindowShouldClose (window v)]"
    by (rule frame_loop_trace)
  have iteration: "frame_calls v f =
     [GlfwWindowShouldClose (window v), GlfwGetKey (window v) GLFW_KEY_ESCAPE] @
     (if escape_pressed f then [GlfwSetWindowShouldClose (window v) GLFW_TRUE] else []) @
     [GlBindFramebuffer GL_DRAW_FRAMEBUFFER (fb v),
      GlClear GL_COLOR_BUFFER_BIT,
      GlUseProgram (quad1Program v),
      GlDrawBuffers 2 att1,
      GlDrawArrays GL_TRIANGLES 0 6] @
     pass_B_calls v @ [GlfwSwapBuffers (window v), GlfwPollEvents]"
    by (simp add: frame_calls_def pass_A_calls_def att1_def)
  have mask: "att1 = [GL_NONE, GL_COLOR_ATTACHMENT1]"
    by (simp add: att1_def)
  have run: "startup_passes e \<longrightarrow>
      (\<exists>loop_head. startup e = Some (Inr (loop_locals e, loop_head))) \<and>
      (\<exists>status. main e = Some (status, final_world e)) \<and>
      fb (loop_locals e) = gen_fb e \<and>
      (\<exists>before after. trace (final_world e) =
         before @ concat (map (frame_calls (loop_locals e)) (executed False (frames e))) @ after)"
  proof
    assume p: "startup_passes e"
    from main_run [OF p] obtain cs1 cs2
      where "trace (final_world e) =
             (startup_head_calls e @ cs1 @ cs2 @ startup_tail_calls e) @
             concat (map (frame_calls (loop_locals e)) (executed False (frames e))) @
             ([GlfwWindowShouldClose (created_window e)] @
              (if list_ex closing (frames e) then shutdown_calls (loop_locals e) else []))"
      by auto
    then have "\<exists>before after. trace (final_world e) =
         before @ concat (map (frame_calls (loop_locals e)) (executed False (frames e))) @ after"
      by blast
    moreover have "\<exists>loop_head. startup e = Some (Inr (loop_locals e, loop_head))"
      using startup_reaches_loop [OF p] by blast
    moreover note main_returns [of e]
    moreover have "fb (loop_locals e) = gen_fb e" by (simp add: loop_locals_def)
    ultimately show "(\<exists>loop_head. startup e = Some (Inr (loop_locals e, loop_head))) \<and>
      (\<exists>status. main e = Some (status, final_world e)) \<and>
      fb (loop_locals e) = gen_fb e \<and>
      (\<exists>before after. trace (final_world e) =
         before @ concat (map (frame_calls (loop_locals e)) (executed False (frames e))) @ after)"
      by blast
  qed
  from loop iteration mask run show ?thesis by blast
qed

text \<open>One idle frame in the environment in which everything succeeds.\<close>

theorem pass_A_call_order_witness:
  "startup_passes (demo_environment [idle_frame]) \<and>
   fb (loop_locals (demo_environment [idle_frame])) = 1 \<and>
   (\<exists>before after. trace (final_world (demo_environment [idle_frame])) =
      before @
      [GlBindFramebuffer GL_DRAW_FRAMEBUFFER 1,
       GlClear GL_COLOR_BUFFER_BIT,
       GlUseProgram 3,
       GlDrawBuffers 2 [GL_NONE, GL_COLOR_ATTACHMENT1],
       GlDrawArrays GL_TRIANGLES 0 6] @ after)"
proof -
  let ?e = "demo_environment [idle_frame]"
  have p: "startup_passes ?e" by (rule demo_passes)
  have v: "fb (loop_locals ?e) = 1" "quad1Program (loop_locals ?e) = 3"
    by (simp_all add: loop_locals_def demo_environment_def good_driver_result)
  have i: "\<not> escape_pressed idle_frame" by (simp add: idle_frame_def)
  from pass_A_call_order [where e = ?e] p obtain before after
    where "trace (final_world ?e) =
         before @ concat (map (frame_calls (loop_locals ?e)) (executed False (frames ?e))) @ after"
    by blast
  then have "trace (final_world ?e) =
      (before @ [GlfwWindowShouldClose (window (loop_locals ?e)),
                 GlfwGetKey (window (loop_locals ?e)) GLFW_KEY_ESCAPE]) @
      [GlBindFramebuffer GL_DRAW_FRAMEBUFFER 1,
       GlClear GL_COLOR_BUFFER_BIT,
       GlUseProgram 3,
       GlDrawBuffers 2 [GL_NONE, GL_COLOR_ATTACHMENT1],
       GlDrawArrays GL_TRIANGLES 0 6] @
      (pass_B_calls (loop_locals ?e) @
       [GlfwSwapBuffers (window (loop_locals ?e)), GlfwPollEvents] @ after)"
    by (simp add: demo_fields frame_calls_def pass_A_calls_def v i)
  then have "\<exists>before after. trace (final_world ?e) =
      before @
      [GlBindFramebuffer GL_DRAW_FRAMEBUFFER 1,
       GlClear GL_COLOR_BUFFER_BIT,
       GlUseProgram 3,
       GlDrawBuffers 2 [GL_NONE, GL_COLOR_ATTACHMENT1],
       GlDrawArrays GL_TRIANGLES 0 6] @ after"
    by blast
  with p v show ?thesis by simp
qed

text \<open>
  C7: if the exit key is pressed in frame \<open>k\<close>, the key poll of that iteration
  sets the close flag, the loop is left with the flag set, and the iterations
  that ran are the first \<open>n\<close> frames for some \<open>n \<le> k + 1\<close>: no iteration runs
  after the one in which the key was pressed.
\<close>

theorem exit_key_ends_loop:
  assumes "k < length fs" and "escape_pressed (fs ! k)"
  shows "shouldClose (poll_exit_key v (fs ! k) w') \<and>
         fst (frame_loop v fs w) \<and>
         shouldClose (snd (frame_loop v fs w)) \<and>
         (\<exists>n. n \<le> k + 1 \<and> executed (shouldClose w) fs = take n fs \<and>
            trace (snd (frame_loop v fs w)) =
              trace w @ concat (map (frame_calls v) (take n fs)) @
              [GlfwWindowShouldClose (window v)])"
proof -
  have c: "closing (fs ! k)" using assms(2) by (simp add: closing_def)
  have key: "shouldClose (poll_exit_key v (fs ! k) w')"
    using assms(2) by (simp add: poll_exit_key_def glfwSetWindowShouldClose_TRUE_def Let_def)
  have left: "fst (frame_loop v fs w)" "shouldClose (snd (frame_loop v fs w))"
    using closing_frame_leaves [OF assms(1) c] by (simp_all add: frame_loop_frame)
  obtain n where n: "n \<le> length fs" "executed (shouldClose w) fs = take n fs"
    using executed_prefix by blast
  have "length (executed (shouldClose w) fs) \<le> Suc k"
    using assms(1) c by (rule executed_stops)
  with n have "n \<le> k + 1" by simp
  with n(2) key left show ?thesis
    by (auto simp: frame_loop_trace)
qed

text \<open>Three frames, the exit key pressed in the second: two iterations run.\<close>

theorem exit_key_ends_loop_witness:
  "(1::nat) < length [idle_frame, \<lparr>escape_pressed = True, close_requested = False\<rparr>, idle_frame] \<and>
   escape_pressed ([idle_frame, \<lparr>escape_pressed = True, close_requested = False\<rparr>, idle_frame] ! 1) \<and>
   fst (frame_loop (loop_locals (demo_environment []))
          [idle_frame, \<lparr>escape_pressed = True, close_requested = False\<rparr>, idle_frame]
          initial_world) \<and>
   executed False [idle_frame, \<lparr>escape_pressed = True, close_requested = False\<rparr>, idle_frame] =
     [idle_frame, \<lparr>escape_pressed = True, close_requested = False\<rparr>]"
proof -
  let ?fs = "[idle_frame, \<lparr>escape_pressed = True, close_requested = False\<rparr>, idle_frame]"
  have h1: "(1::nat) < length ?fs" by simp
  have h2: "escape_pressed (?fs ! 1)" by simp
  have e: "executed False ?fs = [idle_frame, \<lparr>escape_pressed = True, close_requested = False\<rparr>]"
    by (simp add: closing_def idle_frame_def)
  show ?thesis
    using h1 h2 e exit_key_ends_loop [OF h1 h2, of "loop_locals (demo_environment [])"
        initial_world initial_world]
    by simp
qed

text \<open>
  C8, as stated, fails: the value passed to \<open>glDeleteProgram\<close> is whatever the
  first \<open>createProgram\<close> call returned, and that can be the handle of program B.
  Here the vertex shader of program A does not compile, so the first call
  returns 5 and leaves its two shaders, 1 and 2, alive; the driver then names
  the shaders of program B 3 and 4 and program B itself 5, and the build of
  program B succeeds. With the exit key pressed in the first frame the process
  ends with code 0 after \<open>glDeleteProgram(5)\<close>: program B is deleted, and no
  program A exists.
\<close>

theorem shutdown_deletes_program_B_counterexample:
  "build_outcome ((good_driver 3)\<lparr>vs_driver := broken_shader\<rparr>) = Some Compile_failure \<and>
   build_outcome ((good_driver 5)\<lparr>vs_handle := 3, fs_handle := 4\<rparr>) = None \<and>
   program_handle ((good_driver 5)\<lparr>vs_handle := 3, fs_handle := 4\<rparr>) = 5 \<and>
   startup_passes ((demo_environment [\<lparr>escape_pressed = True, close_requested = False\<rparr>])
      \<lparr>quad1_driver := (good_driver 3)\<lparr>vs_driver := broken_shader\<rparr>,
       tex_driver := (good_driver 5)\<lparr>vs_handle := 3, fs_handle := 4\<rparr>\<rparr>) \<and>
   map_option fst (main ((demo_environment [\<lparr>escape_pressed = True, close_requested = False\<rparr>])
      \<lparr>quad1_driver := (good_driver 3)\<lparr>vs_driver := broken_shader\<rparr>,
       tex_driver := (good_driver 5)\<lparr>vs_handle := 3, fs_handle := 4\<rparr>\<rparr>)) = Some (Exit 0) \<and>
   GlDeleteProgram 5 \<in> set (trace (final_world
     ((demo_environment [\<lparr>escape_pressed = True, close_requested = False\<rparr>])
      \<lparr>quad1_driver := (good_driver 3)\<lparr>vs_driver := broken_shader\<rparr>,
       tex_driver := (good_driver 5)\<lparr>vs_handle := 3, fs_handle := 4\<rparr>\<rparr>)))"
proof -
  let ?dA = "(good_driver 3)\<lparr>vs_driver := broken_shader\<rparr>"
  let ?dB = "(good_driver 5)\<lparr>vs_handle := 3, fs_handle := 4\<rparr>"
  let ?e = "(demo_environment [\<lparr>escape_pressed = True, close_requested = False\<rparr>])
      \<lparr>quad1_driver := ?dA, tex_driver := ?dB\<rparr>"
  have o: "build_outcome ?dA = Some Compile_failure" "build_outcome ?dB = None"
    "program_handle ?dB = 5"
    by (simp_all add: build_outcome_def good_driver_def good_shader_def broken_shader_def)
  have p: "startup_passes ?e"
    by (simp add: startup_passes_def demo_environment_def)
  have c: "list_ex closing (frames ?e)"
    by (simp add: demo_environment_def closing_def)
  have q: "quad1Program (loop_locals ?e) = 5"
    using o(1) by (simp add: loop_locals_def demo_environment_def program_result_def)
  from main_run [OF p] c obtain cs1 cs2
    where run: "main ?e = Some (Exit 0, final_world ?e)"
      and tr: "trace (final_world ?e) =
             startup_head_calls ?e @ cs1 @ cs2 @ startup_tail_calls ?e @
             concat (map (frame_calls (loop_locals ?e)) (executed False (frames ?e))) @
             [GlfwWindowShouldClose (created_window ?e)] @ shutdown_calls (loop_locals ?e)"
    by auto
  have "GlDeleteProgram 5 \<in> set (shutdown_calls (loop_locals ?e))"
    by (simp add: shutdown_calls_def q)
  then have "GlDeleteProgram 5 \<in> set (trace (final_world ?e))"
    unfolding tr by simp
  moreover have "map_option fst (main ?e) = Some (Exit 0)" by (simp add: run)
  ultimately show ?thesis using o p by blast
qed

text \<open>
  C8, amended: when the startup passes and some frame closes the window, \<open>main\<close>
  returns 0; its last calls are \<open>glDeleteProgram\<close> with the value the first
  \<open>createProgram\<close> call returned (the handle of program A if its build
  succeeded, otherwise 2 or 5), then the calls that clear the current context,
  destroy the window and terminate the windowing system, in this order; no
  earlier call is a \<open>glDeleteProgram\<close>, so exactly one is issued, and the value
  returned for program B is passed to none unless it equals the value returned
  for program A; and the last text on standard output is the completion notice.
\<close>

theorem shutdown_completes:
  assumes "startup_passes e" and "list_ex closing (frames e)"
  shows "map_option fst (main e) = Some (Exit 0) \<and>
         (\<exists>loop_head. startup e = Some (Inr (loop_locals e, loop_head))) \<and>
         quad1Program (loop_locals e) =
           (case build_outcome (quad1_driver e) of
              None \<Rightarrow> program_handle (quad1_driver e)
            | Some Zero_handle \<Rightarrow> 2
            | Some Compile_failure \<Rightarrow> 5
            | Some Link_failure \<Rightarrow> 2) \<and>
         texProgram (loop_locals e) =
           (case build_outcome (tex_driver e) of
              None \<Rightarrow> program_handle (tex_driver e)
            | Some Zero_handle \<Rightarrow> 2
            | Some Compile_failure \<Rightarrow> 5
            | Some Link_failure \<Rightarrow> 2) \<and>
         (\<exists>before. trace (final_world e) =
            before @
            [GlDeleteProgram (quad1Program (loop_locals e)),
             GlfwMakeContextCurrent 0,
             GlfwDestroyWindow (created_window e),
             GlfwTerminate] \<and>
            list_all (\<lambda>c. \<not> deletes_program c) before) \<and>
         (texProgram (loop_locals e) \<noteq> quad1Program (loop_locals e) \<longrightarrow>
            GlDeleteProgram (texProgram (loop_locals e)) \<notin> set (trace (final_world e))) \<and>
         (\<exists>out. cout (final_world e) = out @ ''Finishing...'' @ endl)"
proof -
  from main_run [OF assms(1)] assms(2) obtain cs1 cs2 out
    where b: "list_all build_call cs1" "list_all build_call cs2"
      and run: "main e = Some (Exit 0, final_world e)"
      and tr: "trace (final_world e) =
             startup_head_calls e @ cs1 @ cs2 @ startup_tail_calls e @
             concat (map (frame_calls (loop_locals e)) (executed False (frames e))) @
             [GlfwWindowShouldClose (created_window e)] @ shutdown_calls (loop_locals e)"
      and out: "cout (final_world e) = out @ ''Finishing...'' @ endl"
    by auto
  let ?before = "startup_head_calls e @ cs1 @ cs2 @ startup_tail_calls e @
             concat (map (frame_calls (loop_locals e)) (executed False (frames e))) @
             [GlfwWindowShouldClose (created_window e)]"
  have status: "map_option fst (main e) = Some (Exit 0)" by (simp add: run)
  have head: "\<exists>loop_head. startup e = Some (Inr (loop_locals e, loop_head))"
    using startup_reaches_loop [OF assms(1)] by blast
  have returned: "quad1Program (loop_locals e) =
           (case build_outcome (quad1_driver e) of
              None \<Rightarrow> program_handle (quad1_driver e)
            | Some Zero_handle \<Rightarrow> 2
            | Some Compile_failure \<Rightarrow> 5
            | Some Link_failure \<Rightarrow> 2)"
    "texProgram (loop_locals e) =
           (case build_outcome (tex_driver e) of
              None \<Rightarrow> program_handle (tex_driver e)
            | Some Zero_handle \<Rightarrow> 2
            | Some Compile_failure \<Rightarrow> 5
            | Some Link_failure \<Rightarrow> 2)"
    by (simp_all add: loop_locals_def program_result_def)
  have kept: "list_all (\<lambda>c. \<not> deletes_program c) ?before"
    using build_calls_keep_programs [OF b(1)] build_calls_keep_programs [OF b(2)]
      frames_keep_programs [of "loop_locals e" "executed False (frames e)"]
    by (simp add: startup_head_calls_def startup_tail_calls_def deletes_program_def)
  have parts: "trace (final_world e) = ?before @
            [GlDeleteProgram (quad1Program (loop_locals e)),
             GlfwMakeContextCurrent 0,
             GlfwDestroyWindow (created_window e),
             GlfwTerminate]"
    by (simp add: tr shutdown_calls_def loop_locals_def)
  have last_calls: "\<exists>before. trace (final_world e) =
            before @
            [GlDeleteProgram (quad1Program (loop_locals e)),
             GlfwMakeContextCurrent 0,
             GlfwDestroyWindow (created_window e),
             GlfwTerminate] \<and>
            list_all (\<lambda>c. \<not> deletes_program c) before"
    using kept parts by blast
  have "GlDeleteProgram (texProgram (loop_locals e)) \<notin> set ?before"
    using kept by (rule kept_programs_not_deleted)
  then have other: "texProgram (loop_locals e) \<noteq> quad1Program (loop_locals e) \<longrightarrow>
            GlDeleteProgram (texProgram (loop_locals e)) \<notin> set (trace (final_world e))"
    unfolding parts by simp
  from status head returned last_calls other out show ?thesis by blast
qed

text \<open>The exit key pressed in the first frame.\<close>

theorem shutdown_completes_witness:
  "startup_passes (demo_environment [\<lparr>escape_pressed = True, close_requested = False\<rparr>]) \<and>
   list_ex closing (frames (demo_environment [\<lparr>escape_pressed = True, close_requested = False\<rparr>])) \<and>
   map_option fst (main (demo_environment [\<lparr>escape_pressed = True, close_requested = False\<rparr>])) =
     Some (Exit 0) \<and>
   quad1Program (loop_locals (demo_environment [\<lparr>escape_pressed = True, close_requested = False\<rparr>])) = 3 \<and>
   texProgram (loop_locals (demo_environment [\<lparr>escape_pressed = True, close_requested = False\<rparr>])) = 6 \<and>
   GlDeleteProgram 6 \<notin>
     set (trace (final_world (demo_environment [\<lparr>escape_pressed = True, close_requested = False\<rparr>])))"
proof -
  let ?e = "demo_environment [\<lparr>escape_pressed = True, close_requested = False\<rparr>]"
  have p: "startup_passes ?e" by (rule demo_passes)
  have c: "list_ex closing (frames ?e)" by (simp add: demo_fields closing_def)
  have v: "quad1Program (loop_locals ?e) = 3" "texProgram (loop_locals ?e) = 6"
    by (simp_all add: loop_locals_def demo_fields good_driver_result)
  show ?thesis
    using p c shutdown_completes [OF p c] v
    by simp
qed






end
